theory Spec2Isabelle
  imports Complex_Main
begin

section \<open>Voltage-drop calculation for APWRLINK / APWRHUB chains\<close>

text \<open>
  The repository holds two variants of the calculator: \<^verbatim>\<open>main2.py\<close> (several links,
  one-way resistivity, segment current = downstream load) and \<^verbatim>\<open>main.py\<close> (one chain,
  round-trip conductivity formula, running current total).  Both are Streamlit scripts;
  the values the widgets return are the inputs of the model.

  Numbers: anode and hub currents are Python integers (milliamps) and are modelled as
  \<open>int\<close>.  Every other quantity is a Python float and is modelled as an exact
  rational (\<open>rat\<close>); binary64 rounding of the arithmetic is not part of the model.
  Python's \<^verbatim>\<open>round(x, n)\<close> is modelled as rounding to the nearest multiple of
  \<open>10 ^ -n\<close>, ties going to the even multiple.
\<close>

subsection \<open>Errors and Python primitives\<close>

datatype error =
    Stopped              \<comment> \<open>\<^verbatim>\<open>st.error(...)\<close> followed by \<^verbatim>\<open>st.stop()\<close>\<close>
  | ZeroDivisionError    \<comment> \<open>float division by zero\<close>
  | ValueError           \<comment> \<open>\<^verbatim>\<open>min([])\<close>, \<^verbatim>\<open>list.index\<close> of a missing element\<close>
  | IndexError           \<comment> \<open>\<^verbatim>\<open>xs[0]\<close> on an empty list\<close>

definition bind_err :: "error + 'a \<Rightarrow> ('a \<Rightarrow> error + 'b) \<Rightarrow> error + 'b" where
  "bind_err m f = (case m of Inl e \<Rightarrow> Inl e | Inr x \<Rightarrow> f x)"

definition round_half_even :: "rat \<Rightarrow> int" where
  "round_half_even q =
     (let f = \<lfloor>q\<rfloor>; d = q - of_int f
      in if d < 1 / 2 then f
         else if 1 / 2 < d then f + 1
         else if even f then f else f + 1)"

definition py_round :: "rat \<Rightarrow> nat \<Rightarrow> rat" where
  \<comment> \<open>\<^verbatim>\<open>round(x, ndigits)\<close>\<close>
  "py_round x ndigits = of_int (round_half_even (x * 10 ^ ndigits)) / 10 ^ ndigits"

fun py_min :: "rat list \<Rightarrow> error + rat" where
  \<comment> \<open>\<^verbatim>\<open>min(xs)\<close> of a list\<close>
  "py_min [] = Inl ValueError"
| "py_min (x # xs) = Inr (fold min xs x)"

fun py_max :: "rat list \<Rightarrow> error + rat" where
  "py_max [] = Inl ValueError"
| "py_max (x # xs) = Inr (fold max xs x)"

fun index_of :: "'a list \<Rightarrow> 'a \<Rightarrow> error + nat" where
  \<comment> \<open>\<^verbatim>\<open>xs.index(v)\<close>\<close>
  "index_of [] v = Inl ValueError"
| "index_of (x # xs) v =
     (if x = v then Inr 0 else bind_err (index_of xs v) (\<lambda>i. Inr (Suc i)))"

fun map_err :: "('a \<Rightarrow> error + 'b) \<Rightarrow> 'a list \<Rightarrow> error + 'b list" where
  \<comment> \<open>a list comprehension whose element expression may raise\<close>
  "map_err f [] = Inr []"
| "map_err f (x # xs) =
     bind_err (f x) (\<lambda>y. bind_err (map_err f xs) (\<lambda>ys. Inr (y # ys)))"

subsection \<open>main2.py: constants\<close>

definition COPPER_RESISTIVITY :: rat where "COPPER_RESISTIVITY = 175 / 10000"
definition ANODES_PER_HUB :: int where "ANODES_PER_HUB = 8"
definition LINK_VOLTAGE :: rat where "LINK_VOLTAGE = 48"

subsection \<open>main2.py: calculation functions\<close>

text \<open>
  Node names: the string \<^verbatim>\<open>"APWRLINK"\<close> (the source of a link) and the strings
  \<^verbatim>\<open>f"APWRHUB {k}"\<close>.  A link id \<^verbatim>\<open>f"APWRLINK {n}"\<close> is the number \<open>n\<close>.
\<close>

datatype node = APWRLINK | APWRHUB nat

record hub =
  hub_name :: node
  link_id :: nat
  distance :: rat
  current_mA :: int

definition calculate_resistance :: "rat \<Rightarrow> rat \<Rightarrow> error + rat" where
  "calculate_resistance length_m area_mm2 =
     (if area_mm2 = 0 then Inl ZeroDivisionError
      else Inr ((COPPER_RESISTIVITY * length_m) / area_mm2))"

definition calculate_current :: "hub list \<Rightarrow> nat \<Rightarrow> rat" where
  "calculate_current hub_list start_index =
     of_int (sum_list (map current_mA (drop start_index hub_list))) / 1000"

subsection \<open>main2.py: inputs and topology\<close>

record inputs =
  total_anodes :: int                  \<comment> \<open>widget: \<open>min_value = 1\<close>\<close>
  current_per_anode :: int             \<comment> \<open>widget: \<open>min_value = 1\<close>\<close>
  cable_area :: rat                    \<comment> \<open>widget: \<open>min_value = 0.1\<close>\<close>
  reference_voltage :: rat             \<comment> \<open>widget: \<open>min_value = 1.0\<close>\<close>
  min_voltage :: rat                   \<comment> \<open>widget: \<open>min_value = 1.0\<close>\<close>
  max_link_current :: rat              \<comment> \<open>widget: \<open>min_value = 1.0\<close>\<close>
  selected_link_starts :: "node list"  \<comment> \<open>multiselect over \<open>hub_names\<close>\<close>
  dist_in :: "nat \<Rightarrow> rat"              \<comment> \<open>widget \<^verbatim>\<open>dist_{i}\<close>, \<open>min_value = 0.0\<close>\<close>
  manual_in :: "nat \<Rightarrow> bool"            \<comment> \<open>checkbox \<^verbatim>\<open>manual_{i}\<close>\<close>
  curr_in :: "nat \<Rightarrow> nat \<Rightarrow> int"       \<comment> \<open>widget \<^verbatim>\<open>curr_{i}_{a}\<close>, 0..625\<close>
  input_len_in :: "nat \<Rightarrow> rat"         \<comment> \<open>widget \<^verbatim>\<open>input_len_{link_id}\<close>, \<open>min_value = 0.0\<close>\<close>

definition num_hubs :: "int \<Rightarrow> int" where
  \<comment> \<open>\<^verbatim>\<open>math.ceil(total_anodes / ANODES_PER_HUB)\<close>\<close>
  "num_hubs n_anodes = \<lceil>(of_int n_anodes :: rat) / of_int ANODES_PER_HUB\<rceil>"

definition py_range :: "int \<Rightarrow> nat list" where
  \<comment> \<open>\<^verbatim>\<open>range(n)\<close>: empty for \<open>n \<le> 0\<close>\<close>
  "py_range n = [0..<nat n]"

definition hub_names :: "int \<Rightarrow> node list" where
  "hub_names n = map (\<lambda>i. APWRHUB (i + 1)) (py_range n)"

fun assign_links :: "nat list \<Rightarrow> nat \<Rightarrow> nat list \<Rightarrow> nat list" where
  \<comment> \<open>the loop building \<open>link_assignments\<close>; the second argument is \<open>current_link\<close>\<close>
  "assign_links start_indices current_link [] = []"
| "assign_links start_indices current_link (i # is) =
     (let current_link' =
            (if i \<in> set start_indices \<and> i \<noteq> 0 then current_link + 1 else current_link)
      in current_link' # assign_links start_indices current_link' is)"

text \<open>
  One pass of the hub configuration loop.  The state is \<open>remaining_anodes\<close>; each
  iteration yields its local \<open>anodes_here\<close> together with the entry appended to
  \<open>hub_data\<close>.  The loop runs over \<open>i\<close> paired with \<open>link_assignments[i]\<close>.
\<close>

definition anode_currents_of :: "inputs \<Rightarrow> nat \<Rightarrow> int \<Rightarrow> int list" where
  "anode_currents_of inp i anodes_here =
     (if manual_in inp i then map (curr_in inp i) (py_range anodes_here)
      else replicate (nat anodes_here) (current_per_anode inp))"

fun hub_loop :: "inputs \<Rightarrow> int \<Rightarrow> (nat \<times> nat) list \<Rightarrow> (int \<times> hub) list" where
  "hub_loop inp remaining_anodes [] = []"
| "hub_loop inp remaining_anodes ((i, link) # rest) =
     (let anodes_here = min ANODES_PER_HUB remaining_anodes;
          total_current = sum_list (anode_currents_of inp i anodes_here)
      in (anodes_here,
          \<lparr>hub_name = APWRHUB (i + 1), link_id = link,
           distance = dist_in inp i, current_mA = total_current\<rparr>)
         # hub_loop inp (remaining_anodes - anodes_here) rest)"

definition link_assignments :: "int \<Rightarrow> nat list \<Rightarrow> nat list" where
  "link_assignments n start_indices = assign_links start_indices 1 (py_range n)"

definition hub_config :: "inputs \<Rightarrow> nat list \<Rightarrow> (int \<times> hub) list" where
  \<comment> \<open>\<^verbatim>\<open>for i in range(num_hubs)\<close> with \<open>remaining_anodes = total_anodes\<close> at the start\<close>
  "hub_config inp assignments =
     hub_loop inp (total_anodes inp)
       (zip (py_range (num_hubs (total_anodes inp))) assignments)"

subsection \<open>main2.py: grouping hubs by link\<close>

text \<open>
  \<open>link_groups\<close> is a dictionary from link id to the hubs of the link; its iteration
  order (insertion order) matters, so it is an association list with distinct keys.
\<close>

fun dict_append :: "nat \<Rightarrow> hub \<Rightarrow> (nat \<times> hub list) list \<Rightarrow> (nat \<times> hub list) list" where
  \<comment> \<open>\<^verbatim>\<open>if link not in d: d[link] = []\<close> then \<^verbatim>\<open>d[link].append(hub)\<close>\<close>
  "dict_append k v [] = [(k, [v])]"
| "dict_append k v ((k', vs) # d) =
     (if k' = k then (k', vs @ [v]) # d else (k', vs) # dict_append k v d)"

definition link_groups :: "hub list \<Rightarrow> (nat \<times> hub list) list" where
  "link_groups hub_data = foldl (\<lambda>d h. dict_append (link_id h) h d) [] hub_data"

subsection \<open>main2.py: segments and result rows\<close>

text \<open>
  The local variables of one segment computation.  The two code blocks (source to first
  hub, hub to hub) compute them by the same statements from the cable length \<open>L\<close>,
  the current \<open>I_A\<close> and the running \<open>cumulative_drop_mV\<close>.
\<close>

record seg_vars =
  seg_L :: rat
  I_A :: rat
  seg_R :: rat
  U_drop_mV :: rat
  cumulative_drop_mV :: rat
  remaining_voltage :: rat
  percent_drop :: rat

record result_row =
  row_APWRLINK :: nat                     \<comment> \<open>\<^verbatim>\<open>"APWRLINK"\<close>\<close>
  row_From :: node                        \<comment> \<open>\<^verbatim>\<open>"From"\<close>\<close>
  row_To :: node                          \<comment> \<open>\<^verbatim>\<open>"To"\<close>\<close>
  row_Distance_m :: rat                   \<comment> \<open>\<^verbatim>\<open>"Distance [m]"\<close>\<close>
  row_Resistance_Ohm :: rat               \<comment> \<open>\<^verbatim>\<open>"Resistance [Ohm]"\<close>\<close>
  row_Current_A :: rat                    \<comment> \<open>\<^verbatim>\<open>"Current [A]"\<close>\<close>
  row_dVoltage_mV :: rat                  \<comment> \<open>\<^verbatim>\<open>"dVoltage [mV]"\<close>\<close>
  row_Cumulative_dVoltage_mV :: rat       \<comment> \<open>\<^verbatim>\<open>"Cumulative dVoltage [mV]"\<close>\<close>
  row_Remaining_Voltage_V :: rat          \<comment> \<open>\<^verbatim>\<open>"Remaining Voltage [V]"\<close>\<close>
  row_dVoltage_percent :: rat             \<comment> \<open>\<^verbatim>\<open>"dVoltage [%]"\<close>\<close>

definition segment :: "rat \<Rightarrow> rat \<Rightarrow> rat \<Rightarrow> rat \<Rightarrow> rat \<Rightarrow> error + seg_vars" where
  "segment area ref_voltage cum0 len cur =
     bind_err (calculate_resistance len area) (\<lambda>r.
       let u = cur * r * 1000;
           cum = cum0 + u;
           remaining = LINK_VOLTAGE - (cum / 1000)
       in if ref_voltage * 1000 = 0 then Inl ZeroDivisionError
          else Inr \<lparr>seg_L = len, I_A = cur, seg_R = r, U_drop_mV = u,
                    cumulative_drop_mV = cum, remaining_voltage = remaining,
                    percent_drop = (cum / (ref_voltage * 1000)) * 100\<rparr>)"

definition result_row_of :: "nat \<Rightarrow> node \<Rightarrow> node \<Rightarrow> seg_vars \<Rightarrow> result_row" where
  "result_row_of lid from to v =
     \<lparr>row_APWRLINK = lid, row_From = from, row_To = to,
      row_Distance_m = seg_L v,
      row_Resistance_Ohm = py_round (seg_R v) 4,
      row_Current_A = py_round (I_A v) 3,
      row_dVoltage_mV = py_round (U_drop_mV v) 2,
      row_Cumulative_dVoltage_mV = py_round (cumulative_drop_mV v) 2,
      row_Remaining_Voltage_V = py_round (remaining_voltage v) 2,
      row_dVoltage_percent = py_round (percent_drop v) 2\<rparr>"

fun hub_segments ::
  "rat \<Rightarrow> rat \<Rightarrow> nat \<Rightarrow> hub list \<Rightarrow> rat \<Rightarrow> nat list \<Rightarrow> error + (seg_vars \<times> result_row) list"
where
  \<comment> \<open>\<^verbatim>\<open>for i in range(len(hubs)): if i > 0: ...\<close>; the fifth argument is
      \<open>cumulative_drop_mV\<close> on entry\<close>
  "hub_segments area ref_voltage lid hubs cum [] = Inr []"
| "hub_segments area ref_voltage lid hubs cum (i # is) =
     (if i > 0 then
        bind_err (segment area ref_voltage cum (distance (hubs ! i)) (calculate_current hubs i))
          (\<lambda>v. bind_err (hub_segments area ref_voltage lid hubs (cumulative_drop_mV v) is)
            (\<lambda>rest. Inr ((v, result_row_of lid (hub_name (hubs ! (i - 1)))
                                (hub_name (hubs ! i)) v) # rest)))
      else hub_segments area ref_voltage lid hubs cum is)"

definition link_calc :: "inputs \<Rightarrow> nat \<Rightarrow> hub list \<Rightarrow> error + (seg_vars \<times> result_row) list" where
  \<comment> \<open>the body of \<^verbatim>\<open>for link_id, hubs in link_groups.items()\<close> up to the plotting\<close>
  "link_calc inp lid hubs =
     bind_err (segment (cable_area inp) (reference_voltage inp) 0
                 (input_len_in inp lid) (calculate_current hubs 0))
       (\<lambda>v0. case hubs of
            [] \<Rightarrow> Inl IndexError
          | h0 # _ \<Rightarrow>
              bind_err (hub_segments (cable_area inp) (reference_voltage inp) lid hubs
                          (cumulative_drop_mV v0) (py_range (int (length hubs))))
                (\<lambda>rest. Inr ((v0, result_row_of lid APWRLINK (hub_name h0) v0) # rest)))"

definition calc_loop ::
  "inputs \<Rightarrow> (nat \<times> hub list) list \<Rightarrow> error + (nat \<times> (seg_vars \<times> result_row) list) list"
where
  "calc_loop inp groups =
     map_err (\<lambda>(lid, hubs). bind_err (link_calc inp lid hubs) (\<lambda>segs. Inr (lid, segs))) groups"

subsection \<open>main2.py: status per link and for the whole system\<close>

datatype status_color = green | red

datatype status_message =
    System_OK | Voltage_below_minimum | Current_exceeds_maximum
  | All_Systems_OK | Voltage_issues_detected | Current_limit_exceeded

record link_status =
  link_current :: rat
  link_min_voltage :: rat
  link_max_drop_percent :: rat
  link_max_drop_mV :: rat
  status_color :: status_color
  status_message :: status_message
  problem_nodes :: "node list"

definition link_current_of :: "result_row list \<Rightarrow> rat" where
  \<comment> \<open>\<^verbatim>\<open>next((r["Current [A]"] for r in link_data if r["From"] == "APWRLINK"), 0)\<close>\<close>
  "link_current_of link_data =
     (case filter (\<lambda>r. row_From r = APWRLINK) link_data of
        [] \<Rightarrow> 0
      | r # _ \<Rightarrow> row_Current_A r)"

definition link_analysis :: "inputs \<Rightarrow> result_row list \<Rightarrow> error + link_status" where
  "link_analysis inp link_data =
     (let lc = link_current_of link_data
      in bind_err (py_min (map row_Remaining_Voltage_V link_data)) (\<lambda>lmin.
         bind_err (py_max (map row_dVoltage_percent link_data)) (\<lambda>lmaxp.
         bind_err (py_max (map row_Cumulative_dVoltage_mV link_data)) (\<lambda>lmaxmv.
           let (c1, m1) = (if lmin < min_voltage inp then (red, Voltage_below_minimum)
                           else (green, System_OK));
               (c2, m2) = (if lc > max_link_current inp then (red, Current_exceeds_maximum)
                           else (c1, m1))
           in Inr \<lparr>link_current = lc, link_min_voltage = lmin,
                    link_max_drop_percent = lmaxp, link_max_drop_mV = lmaxmv,
                    status_color = c2, status_message = m2,
                    problem_nodes =
                      (if lmin < min_voltage inp
                       then map row_To (filter (\<lambda>row. row_Remaining_Voltage_V row
                                                        < min_voltage inp) link_data)
                       else [])\<rparr>))))"

record overall_status =
  total_current_A :: rat
  min_voltage_overall :: rat
  max_drop_percent :: rat
  max_drop_mV :: rat
  overall_status_color :: status_color
  overall_status_message :: status_message

definition overall_analysis ::
  "inputs \<Rightarrow> hub list \<Rightarrow> result_row list \<Rightarrow> (nat \<times> result_row list) list \<Rightarrow> error + overall_status"
where
  "overall_analysis inp hub_data results link_results =
     (let tc = of_int (sum_list (map current_mA hub_data)) / 1000
      in bind_err (py_min (map row_Remaining_Voltage_V results)) (\<lambda>omin.
         bind_err (py_max (map row_dVoltage_percent results)) (\<lambda>omaxp.
         bind_err (py_max (map row_Cumulative_dVoltage_mV results)) (\<lambda>omaxmv.
           let s0 = (if omin < min_voltage inp then (red, Voltage_issues_detected)
                     else (green, All_Systems_OK));
               s1 = foldl (\<lambda>s (lid, link_data).
                             if link_current_of link_data > max_link_current inp
                             then (red, Current_limit_exceeded) else s) s0 link_results
           in Inr \<lparr>total_current_A = tc, min_voltage_overall = omin,
                    max_drop_percent = omaxp, max_drop_mV = omaxmv,
                    overall_status_color = fst s1, overall_status_message = snd s1\<rparr>))))"

subsection \<open>main2.py: the script from the inputs to the results\<close>

text \<open>
  The script runs top to bottom: the check of the selected link starts (which stops the
  script), the link assignment, the hub configuration loop, the grouping by link, the
  calculation loop over the links, the status of each link, the status of the system.
  Every row is appended to \<open>results\<close> and to \<open>link_results[link_id]\<close> by the same
  two statements, link after link, so \<open>results\<close> is the concatenation of the per-link
  lists in the order of \<open>link_groups\<close>.  The output keeps, next to the rows, the local
  variables of every segment and the values of \<open>anodes_here\<close>.  Plotting and export
  are left out.
\<close>

record run_output =
  out_anodes_here :: "int list"
  out_hub_data :: "hub list"
  out_link_groups :: "(nat \<times> hub list) list"
  out_segments :: "(nat \<times> seg_vars list) list"
  out_results :: "result_row list"
  out_link_results :: "(nat \<times> result_row list) list"
  out_link_status :: "(nat \<times> link_status) list"
  out_overall :: overall_status

definition run :: "inputs \<Rightarrow> error + run_output" where
  "run inp =
     (let n = num_hubs (total_anodes inp);
          names = hub_names n
      in if APWRHUB 1 \<notin> set (selected_link_starts inp) then Inl Stopped
         else
           bind_err (map_err (index_of names) (selected_link_starts inp)) (\<lambda>idx.
             let start_indices = sort idx;
                 config = hub_config inp (link_assignments n start_indices);
                 hub_data = map snd config;
                 groups = link_groups hub_data
             in bind_err (calc_loop inp groups) (\<lambda>calc.
                  let link_results = map (\<lambda>(lid, segs). (lid, map snd segs)) calc;
                      results = concat (map snd link_results)
                  in bind_err (map_err (\<lambda>(lid, link_data).
                                  bind_err (link_analysis inp link_data) (\<lambda>s. Inr (lid, s)))
                                link_results) (\<lambda>statuses.
                     bind_err (overall_analysis inp hub_data results link_results) (\<lambda>ov.
                       Inr \<lparr>out_anodes_here = map fst config,
                            out_hub_data = hub_data,
                            out_link_groups = groups,
                            out_segments = map (\<lambda>(lid, segs). (lid, map fst segs)) calc,
                            out_results = results,
                            out_link_results = link_results,
                            out_link_status = statuses,
                            out_overall = ov\<rparr>)))))"

subsection \<open>main.py: the single-chain variant\<close>

text \<open>
  \<open>hub_stroeme\<close> (integer milliamps per hub) and \<open>hub_distanzen\<close> (metres) are filled
  by one \<open>append\<close> per hub, so both have \<open>anzahl_hubs\<close> entries when the calculation
  loop \<^verbatim>\<open>for i in range(anzahl_hubs)\<close> starts.  One iteration yields the values it
  computes and appends to the result lists.
\<close>

definition leitfaehigkeit_kupfer :: rat where "leitfaehigkeit_kupfer = 56"
definition max_erlaubter_spannungsabfall :: rat where "max_erlaubter_spannungsabfall = 2"

record zeile =
  strom_A :: rat
  leitungswiderstand :: rat
  spannungsabfall :: rat
  spannung_kumuliert :: rat
  spannungsabfall_mV :: rat
  spannungsabfall_prozent :: rat

definition widerstand_und_abfall :: "rat \<Rightarrow> nat \<Rightarrow> rat \<Rightarrow> rat \<Rightarrow> error + rat \<times> rat" where
  \<comment> \<open>the \<^verbatim>\<open>if i == 0: ... else: ...\<close> of the loop body\<close>
  "widerstand_und_abfall querschnitt i laenge strom =
     (if i = 0 then Inr (0, 0)
      else if leitfaehigkeit_kupfer * querschnitt = 0 then Inl ZeroDivisionError
      else (let lw = (2 * laenge) / (leitfaehigkeit_kupfer * querschnitt)
            in Inr (lw, lw * strom)))"

fun berechnung ::
  "rat \<Rightarrow> int list \<Rightarrow> rat list \<Rightarrow> int \<Rightarrow> rat \<Rightarrow> nat list \<Rightarrow> error + zeile list"
where
  \<comment> \<open>arguments four and five are \<open>cumulative_current\<close> and \<open>cumulative_voltage\<close>\<close>
  "berechnung querschnitt hub_stroeme hub_distanzen cumulative_current cumulative_voltage [] =
     Inr []"
| "berechnung querschnitt hub_stroeme hub_distanzen cumulative_current cumulative_voltage (i # is) =
     (let strom = of_int (cumulative_current + hub_stroeme ! i) / 1000;
          laenge = hub_distanzen ! i
      in bind_err (widerstand_und_abfall querschnitt i laenge strom) (\<lambda>(lw, sa).
           let cumulative_current' = cumulative_current + hub_stroeme ! i;
               cumulative_voltage' = cumulative_voltage + sa
           in bind_err (berechnung querschnitt hub_stroeme hub_distanzen
                          cumulative_current' cumulative_voltage' is)
                (\<lambda>rest. Inr (\<lparr>strom_A = strom, leitungswiderstand = lw,
                                 spannungsabfall = sa,
                                 spannung_kumuliert = cumulative_voltage',
                                 spannungsabfall_mV = cumulative_voltage' * 1000,
                                 spannungsabfall_prozent =
                                   (cumulative_voltage' / max_erlaubter_spannungsabfall) * 100\<rparr>
                               # rest))))"

definition main_berechnung :: "rat \<Rightarrow> int list \<Rightarrow> rat list \<Rightarrow> error + zeile list" where
  "main_berechnung leitung_querschnitt hub_stroeme hub_distanzen =
     berechnung leitung_querschnitt hub_stroeme hub_distanzen 0 0
       (py_range (int (length hub_stroeme)))"

subsection \<open>Example inputs\<close>

text \<open>Twenty anodes at the default 625 mA, one link, default lengths and cable.\<close>

definition ex20 :: inputs where
  "ex20 = \<lparr>total_anodes = 20, current_per_anode = 625, cable_area = 4, reference_voltage = 48,
     min_voltage = 36, max_link_current = 10, selected_link_starts = [APWRHUB 1],
     dist_in = (\<lambda>_. 10), manual_in = (\<lambda>_. False), curr_in = (\<lambda>_ _. 625), input_len_in = (\<lambda>_. 10)\<rparr>"

text \<open>Twenty anodes, a second link starting at the third hub.\<close>

definition ex_two_links :: inputs where
  "ex_two_links = \<lparr>total_anodes = 20, current_per_anode = 625, cable_area = 4,
     reference_voltage = 48, min_voltage = 36, max_link_current = 10,
     selected_link_starts = [APWRHUB 1, APWRHUB 3],
     dist_in = (\<lambda>_. 10), manual_in = (\<lambda>_. False), curr_in = (\<lambda>_ _. 625),
     input_len_in = (\<lambda>_. 10)\<rparr>"

text \<open>One hub with eight anodes at 625 mA (5 A), 10 m from the source, a cable of 4 square millimetres.\<close>

definition ex_one_hub :: inputs where
  "ex_one_hub = \<lparr>total_anodes = 8, current_per_anode = 625, cable_area = 4,
     reference_voltage = 48, min_voltage = 36, max_link_current = 10,
     selected_link_starts = [APWRHUB 1],
     dist_in = (\<lambda>_. 10), manual_in = (\<lambda>_. False), curr_in = (\<lambda>_ _. 625),
     input_len_in = (\<lambda>_. 10)\<rparr>"


text \<open>The first hub is not among the selected link starts.\<close>

definition ex_no_start :: inputs where
  "ex_no_start = \<lparr>total_anodes = 20, current_per_anode = 625, cable_area = 4,
     reference_voltage = 48, min_voltage = 36, max_link_current = 10,
     selected_link_starts = [APWRHUB 2],
     dist_in = (\<lambda>_. 10), manual_in = (\<lambda>_. False), curr_in = (\<lambda>_ _. 625),
     input_len_in = (\<lambda>_. 10)\<rparr>"

section \<open>Properties\<close>

subsection \<open>Hub count and anode distribution\<close>


lemma num_hubs_div: "num_hubs n = (n + 7) div 8"
proof -
  have "num_hubs n = \<lceil>(of_int n :: rat) / of_int 8\<rceil>"
    by (simp add: num_hubs_def ANODES_PER_HUB_def)
  also have "\<dots> = - ((- n) div 8)"
    by (rule ceiling_divide_eq_div)
  also have "\<dots> = (n + 7) div 8" by presburger
  finally show ?thesis .
qed

lemma length_assign_links: "length (assign_links st c is) = length is"
  by (induction "is" arbitrary: c) (simp_all add: Let_def)

lemma length_link_assignments: "length (link_assignments n st) = nat n"
  by (simp add: link_assignments_def length_assign_links py_range_def)

lemma hub_loop_fst:
  "0 < r \<Longrightarrow> 8 * (int (length xs) - 1) < r \<Longrightarrow> r \<le> 8 * int (length xs) \<Longrightarrow>
   map fst (hub_loop inp r xs) = replicate (length xs - 1) 8 @ [r - 8 * (int (length xs) - 1)]"
proof (induction xs arbitrary: r)
  case Nil
  then show ?case by simp
next
  case (Cons x xs)
  obtain i l where x: "x = (i, l)" by (cases x)
  show ?case
  proof (cases xs)
    case Nil
    with Cons.prems show ?thesis by (simp add: x ANODES_PER_HUB_def Let_def min_def)
  next
    case (Cons y ys)
    with Cons.prems have r8: "8 < r" by simp
    have "map fst (hub_loop inp (r - 8) xs) = replicate (length xs - 1) 8 @ [(r - 8) - 8 * (int (length xs) - 1)]"
      using Cons.prems r8 Cons by (intro Cons.IH) auto
    with r8 show ?thesis
      by (simp add: x ANODES_PER_HUB_def Let_def min_def Cons)
  qed
qed


lemma anodes_here_list:
  assumes "1 \<le> total_anodes inp"
  shows "map fst (hub_config inp (link_assignments (num_hubs (total_anodes inp)) st)) =
         replicate (nat (num_hubs (total_anodes inp)) - 1) 8 @
         [total_anodes inp - 8 * (num_hubs (total_anodes inp) - 1)]"
proof -
  let ?t = "total_anodes inp"
  let ?n = "num_hubs ?t"
  let ?xs = "zip (py_range ?n) (link_assignments ?n st)"
  have n: "?n = (?t + 7) div 8" by (rule num_hubs_div)
  have len: "length ?xs = nat ?n"
    by (simp add: length_link_assignments py_range_def)
  have npos: "1 \<le> ?n" using assms n by presburger
  have lo: "8 * (?n - 1) < ?t" using n by presburger
  have hi: "?t \<le> 8 * ?n" using n by presburger
  have ilen: "int (length ?xs) = ?n" using npos by (simp only: len)
  have "map fst (hub_loop inp ?t ?xs) =
        replicate (length ?xs - 1) 8 @ [?t - 8 * (int (length ?xs) - 1)]"
  proof (rule hub_loop_fst)
    show "0 < ?t" using assms by simp
    show "8 * (int (length ?xs) - 1) < ?t" unfolding ilen by (rule lo)
    show "?t \<le> 8 * int (length ?xs)" unfolding ilen by (rule hi)
  qed
  then show ?thesis unfolding hub_config_def ilen by (simp only: len)
qed

text \<open>
  Claim C6.  For a total anode count of at least 1 (capacity 8 per hub) the hub count is
  \<open>ceil(total_anodes / 8)\<close>; the values of \<open>anodes_here\<close> over the hub loop are 8
  for every hub but the last, the last hub gets the remainder, which is between 1 and 8,
  and the values sum to \<open>total_anodes\<close>.  24 anodes give three full hubs, 20 anodes
  give three hubs with 4 anodes on the last.  This holds whatever link starts are chosen.
\<close>

theorem anode_distribution:
  assumes "1 \<le> total_anodes inp"
  shows "(let n = num_hubs (total_anodes inp);
              anodes = map fst (hub_config inp (link_assignments n st))
          in n = \<lceil>(of_int (total_anodes inp) :: rat) / 8\<rceil>
           \<and> int (length anodes) = n
           \<and> (\<forall>i. int i < n - 1 \<longrightarrow> anodes ! i = 8)
           \<and> last anodes = total_anodes inp - 8 * (n - 1)
           \<and> 1 \<le> last anodes \<and> last anodes \<le> 8
           \<and> sum_list anodes = total_anodes inp
           \<and> (total_anodes inp = 24 \<longrightarrow> anodes = [8, 8, 8])
           \<and> (total_anodes inp = 20 \<longrightarrow> anodes = [8, 8, 4]))"
proof -
  let ?t = "total_anodes inp"
  define n where "n = num_hubs ?t"
  define anodes where "anodes = map fst (hub_config inp (link_assignments n st))"
  have nd: "n = (?t + 7) div 8" unfolding n_def by (rule num_hubs_div)
  have npos: "1 \<le> n" using assms(1) nd by presburger
  have an: "anodes = replicate (nat n - 1) 8 @ [?t - 8 * (n - 1)]"
    unfolding anodes_def n_def by (rule anodes_here_list [OF assms(1)])
  have c1: "n = \<lceil>(of_int ?t :: rat) / 8\<rceil>"
    by (simp add: n_def num_hubs_def ANODES_PER_HUB_def)
  have c2: "int (length anodes) = n" using npos by (simp add: an)
  have c3: "\<forall>i. int i < n - 1 \<longrightarrow> anodes ! i = 8"
    using npos by (auto simp: an nth_append)
  have c4: "last anodes = ?t - 8 * (n - 1)" by (simp add: an)
  have c5: "1 \<le> last anodes \<and> last anodes \<le> 8"
    unfolding c4 using nd by presburger
  have c6: "sum_list anodes = ?t"
    using npos by (simp add: an sum_list_replicate)
  have c7: "?t = 24 \<longrightarrow> anodes = [8, 8, 8]"
  proof
    assume t: "?t = 24"
    then have "n = 3" using nd by simp
    then show "anodes = [8, 8, 8]" using t by (simp add: an numeral_2_eq_2)
  qed
  have c8: "?t = 20 \<longrightarrow> anodes = [8, 8, 4]"
  proof
    assume t: "?t = 20"
    then have "n = 3" using nd by simp
    then show "anodes = [8, 8, 4]" using t by (simp add: an numeral_2_eq_2)
  qed
  from c1 c2 c3 c4 c5 c6 c7 c8 show ?thesis
    unfolding Let_def n_def [symmetric] anodes_def [symmetric] by blast
qed

theorem anode_distribution_witness:
  "1 \<le> total_anodes ex20 \<and>
   map fst (hub_config ex20 (link_assignments (num_hubs (total_anodes ex20)) [0])) = [8, 8, 4]
   \<and> num_hubs (total_anodes ex20) = 3"
  using anode_distribution [of ex20 "[0]"]
  by (simp add: ex20_def num_hubs_div Let_def)

subsection \<open>The error monad, segments and links\<close>

lemma bind_err_Inr_iff:
  "bind_err m f = Inr y \<longleftrightarrow> (\<exists>x. m = Inr x \<and> f x = Inr y)"
  by (cases m) (simp_all add: bind_err_def)

lemma bind_err_Inr [simp]: "bind_err (Inr x) f = f x"
  by (simp add: bind_err_def)

lemma bind_err_Inl [simp]: "bind_err (Inl e) f = Inl e"
  by (simp add: bind_err_def)

lemma map_err_Inr:
  "map_err f xs = Inr ys \<Longrightarrow> length ys = length xs \<and> (\<forall>k<length xs. f (xs ! k) = Inr (ys ! k))"
proof (induction xs arbitrary: ys)
  case Nil
  then show ?case by simp
next
  case (Cons x xs)
  from Cons.prems obtain y ys' where y: "f x = Inr y" and ys': "map_err f xs = Inr ys'"
    and eq: "ys = y # ys'"
    by (auto simp: bind_err_Inr_iff)
  from Cons.IH [OF ys'] have len: "length ys' = length xs"
    and nth: "\<forall>k<length xs. f (xs ! k) = Inr (ys' ! k)" by simp_all
  show ?case
  proof (intro conjI allI impI)
    show "length ys = length (x # xs)" using len eq by simp
  next
    fix k assume "k < length (x # xs)"
    then show "f ((x # xs) ! k) = Inr (ys ! k)"
      using y nth eq by (cases k) simp_all
  qed
qed


lemma segment_Inr:
  assumes "area \<noteq> 0" "ref_voltage \<noteq> 0"
  shows "segment area ref_voltage cum0 len cur =
         Inr \<lparr>seg_L = len, I_A = cur, seg_R = COPPER_RESISTIVITY * len / area,
              U_drop_mV = cur * (COPPER_RESISTIVITY * len / area) * 1000,
              cumulative_drop_mV = cum0 + cur * (COPPER_RESISTIVITY * len / area) * 1000,
              remaining_voltage =
                LINK_VOLTAGE - (cum0 + cur * (COPPER_RESISTIVITY * len / area) * 1000) / 1000,
              percent_drop =
                (cum0 + cur * (COPPER_RESISTIVITY * len / area) * 1000) / (ref_voltage * 1000) * 100\<rparr>"
proof -
  have r: "ref_voltage * 1000 \<noteq> 0" using assms(2) by simp
  show ?thesis
    by (simp only: segment_def calculate_resistance_def Let_def assms(1) r if_False bind_err_Inr)
qed

lemma segment_Inr_D:
  assumes "segment area ref_voltage cum0 len cur = Inr v"
  shows "area \<noteq> 0" and "ref_voltage \<noteq> 0"
    and "seg_L v = len" and "I_A v = cur"
    and "seg_R v = COPPER_RESISTIVITY * len / area"
    and "U_drop_mV v = I_A v * seg_R v * 1000"
    and "cumulative_drop_mV v = cum0 + U_drop_mV v"
    and "remaining_voltage v = LINK_VOLTAGE - cumulative_drop_mV v / 1000"
    and "percent_drop v = cumulative_drop_mV v / (ref_voltage * 1000) * 100"
proof -
  show a: "area \<noteq> 0" using assms
    by (auto simp: segment_def calculate_resistance_def)
  show r: "ref_voltage \<noteq> 0" using assms a
    by (auto simp: segment_def calculate_resistance_def Let_def split: if_splits)
  from segment_Inr [OF a r, of cum0 len cur] assms
  have v: "v = \<lparr>seg_L = len, I_A = cur, seg_R = COPPER_RESISTIVITY * len / area,
              U_drop_mV = cur * (COPPER_RESISTIVITY * len / area) * 1000,
              cumulative_drop_mV = cum0 + cur * (COPPER_RESISTIVITY * len / area) * 1000,
              remaining_voltage =
                LINK_VOLTAGE - (cum0 + cur * (COPPER_RESISTIVITY * len / area) * 1000) / 1000,
              percent_drop =
                (cum0 + cur * (COPPER_RESISTIVITY * len / area) * 1000) / (ref_voltage * 1000) * 100\<rparr>"
    by simp
  show "seg_L v = len" "I_A v = cur" "seg_R v = COPPER_RESISTIVITY * len / area"
    "U_drop_mV v = I_A v * seg_R v * 1000"
    "cumulative_drop_mV v = cum0 + U_drop_mV v"
    "remaining_voltage v = LINK_VOLTAGE - cumulative_drop_mV v / 1000"
    "percent_drop v = cumulative_drop_mV v / (ref_voltage * 1000) * 100"
    by (simp_all add: v)
qed

lemma hub_segments_upt:
  assumes "area \<noteq> 0" "ref_voltage \<noteq> 0" "0 < k"
  shows "\<exists>rest. hub_segments area ref_voltage lid hubs cum [k..<n] = Inr rest
           \<and> length rest = n - k
           \<and> (\<forall>j<n - k.
                 segment area ref_voltage
                   (if j = 0 then cum else cumulative_drop_mV (fst (rest ! (j - 1))))
                   (distance (hubs ! (k + j))) (calculate_current hubs (k + j))
                 = Inr (fst (rest ! j))
               \<and> snd (rest ! j) =
                   result_row_of lid (hub_name (hubs ! (k + j - 1))) (hub_name (hubs ! (k + j)))
                     (fst (rest ! j)))"
  using assms(3)
proof (induction "n - k" arbitrary: k cum)
  case 0
  then show ?case by simp
next
  case (Suc m)
  then have kn: "k < n" and m: "m = n - Suc k" by simp_all
  obtain v where v: "segment area ref_voltage cum (distance (hubs ! k)) (calculate_current hubs k) = Inr v"
    using segment_Inr [OF assms(1,2)] by blast
  from Suc.hyps(1) [OF m, of "cumulative_drop_mV v"]
  obtain rest where rest: "hub_segments area ref_voltage lid hubs (cumulative_drop_mV v) [Suc k..<n] = Inr rest"
    and len: "length rest = n - Suc k"
    and nth: "\<forall>j<n - Suc k.
                 segment area ref_voltage
                   (if j = 0 then cumulative_drop_mV v else cumulative_drop_mV (fst (rest ! (j - 1))))
                   (distance (hubs ! (Suc k + j))) (calculate_current hubs (Suc k + j))
                 = Inr (fst (rest ! j))
               \<and> snd (rest ! j) =
                   result_row_of lid (hub_name (hubs ! (Suc k + j - 1))) (hub_name (hubs ! (Suc k + j)))
                     (fst (rest ! j))"
    by auto
  let ?r = "(v, result_row_of lid (hub_name (hubs ! (k - 1))) (hub_name (hubs ! k)) v) # rest"
  have run: "hub_segments area ref_voltage lid hubs cum [k..<n] = Inr ?r"
    using kn Suc.prems by (simp add: upt_conv_Cons v rest)
  have "\<forall>j<n - k.
                 segment area ref_voltage
                   (if j = 0 then cum else cumulative_drop_mV (fst (?r ! (j - 1))))
                   (distance (hubs ! (k + j))) (calculate_current hubs (k + j))
                 = Inr (fst (?r ! j))
               \<and> snd (?r ! j) =
                   result_row_of lid (hub_name (hubs ! (k + j - 1))) (hub_name (hubs ! (k + j)))
                     (fst (?r ! j))"
  proof (intro allI impI)
    fix j assume j: "j < n - k"
    show "segment area ref_voltage
                   (if j = 0 then cum else cumulative_drop_mV (fst (?r ! (j - 1))))
                   (distance (hubs ! (k + j))) (calculate_current hubs (k + j))
                 = Inr (fst (?r ! j))
               \<and> snd (?r ! j) =
                   result_row_of lid (hub_name (hubs ! (k + j - 1))) (hub_name (hubs ! (k + j)))
                     (fst (?r ! j))"
    proof (cases j)
      case 0
      then show ?thesis by (simp add: v)
    next
      case (Suc j')
      with j have "j' < n - Suc k" by simp
      with nth have "segment area ref_voltage
                   (if j' = 0 then cumulative_drop_mV v else cumulative_drop_mV (fst (rest ! (j' - 1))))
                   (distance (hubs ! (Suc k + j'))) (calculate_current hubs (Suc k + j'))
                 = Inr (fst (rest ! j'))
               \<and> snd (rest ! j') =
                   result_row_of lid (hub_name (hubs ! (Suc k + j' - 1))) (hub_name (hubs ! (Suc k + j')))
                     (fst (rest ! j'))" by blast
      then show ?thesis by (cases j') (simp_all add: Suc)
    qed
  qed
  with run len kn show ?case by (intro exI [of _ ?r]) simp
qed


lemma py_range_length: "py_range (int (length xs)) = [0..<length xs]"
  by (simp add: py_range_def)

lemma link_calc_unfold:
  assumes a: "cable_area inp \<noteq> 0" and r: "reference_voltage inp \<noteq> 0" and h: "hubs \<noteq> []"
  shows "\<exists>v0 rest.
           segment (cable_area inp) (reference_voltage inp) 0 (input_len_in inp lid)
             (calculate_current hubs 0) = Inr v0
         \<and> hub_segments (cable_area inp) (reference_voltage inp) lid hubs
             (cumulative_drop_mV v0) [1..<length hubs] = Inr rest
         \<and> link_calc inp lid hubs =
             Inr ((v0, result_row_of lid APWRLINK (hub_name (hubs ! 0)) v0) # rest)"
proof -
  obtain v0 where v0: "segment (cable_area inp) (reference_voltage inp) 0 (input_len_in inp lid)
             (calculate_current hubs 0) = Inr v0"
    using segment_Inr [OF a r] by blast
  obtain rest where rest: "hub_segments (cable_area inp) (reference_voltage inp) lid hubs
             (cumulative_drop_mV v0) [1..<length hubs] = Inr rest"
    using hub_segments_upt [OF a r, of 1 lid hubs "cumulative_drop_mV v0" "length hubs"] by auto
  obtain h0 hs where hubs: "hubs = h0 # hs" using h by (cases hubs) auto
  have up: "[0..<length hubs] = 0 # [1..<length hubs]"
    using h by (simp add: upt_conv_Cons)
  have "link_calc inp lid hubs =
             Inr ((v0, result_row_of lid APWRLINK (hub_name (hubs ! 0)) v0) # rest)"
    unfolding link_calc_def py_range_length up v0 bind_err_Inr
    using rest by (simp add: hubs)
  with v0 rest show ?thesis by blast
qed

lemma link_calc_Inr_D:
  assumes "link_calc inp lid hubs = Inr segs"
  shows "hubs \<noteq> []" and "cable_area inp \<noteq> 0" and "reference_voltage inp \<noteq> 0"
    and "length segs = length hubs"
    and "\<forall>i<length hubs.
           segment (cable_area inp) (reference_voltage inp)
             (if i = 0 then 0 else cumulative_drop_mV (fst (segs ! (i - 1))))
             (if i = 0 then input_len_in inp lid else distance (hubs ! i))
             (calculate_current hubs i) = Inr (fst (segs ! i))
         \<and> snd (segs ! i) =
             result_row_of lid (if i = 0 then APWRLINK else hub_name (hubs ! (i - 1)))
               (hub_name (hubs ! i)) (fst (segs ! i))"
proof -
  from assms obtain v0 where v0: "segment (cable_area inp) (reference_voltage inp) 0 (input_len_in inp lid)
             (calculate_current hubs 0) = Inr v0"
    by (auto simp: link_calc_def bind_err_Inr_iff)
  show a: "cable_area inp \<noteq> 0" and r: "reference_voltage inp \<noteq> 0"
    using segment_Inr_D(1,2) [OF v0] by simp_all
  show h: "hubs \<noteq> []" using assms v0
    by (auto simp: link_calc_def)
  from link_calc_unfold [OF a r h, of lid] assms v0
  obtain rest where rest: "hub_segments (cable_area inp) (reference_voltage inp) lid hubs
             (cumulative_drop_mV v0) [1..<length hubs] = Inr rest"
    and segs: "segs = (v0, result_row_of lid APWRLINK (hub_name (hubs ! 0)) v0) # rest"
    by auto
  from hub_segments_upt [OF a r, of 1 lid hubs "cumulative_drop_mV v0" "length hubs"] rest
  have len: "length rest = length hubs - 1"
    and nth: "\<forall>j<length hubs - 1.
                 segment (cable_area inp) (reference_voltage inp)
                   (if j = 0 then cumulative_drop_mV v0 else cumulative_drop_mV (fst (rest ! (j - 1))))
                   (distance (hubs ! (1 + j))) (calculate_current hubs (1 + j))
                 = Inr (fst (rest ! j))
               \<and> snd (rest ! j) =
                   result_row_of lid (hub_name (hubs ! (1 + j - 1))) (hub_name (hubs ! (1 + j)))
                     (fst (rest ! j))"
    by auto
  show "length segs = length hubs" using len h by (simp add: segs)
  show "\<forall>i<length hubs.
           segment (cable_area inp) (reference_voltage inp)
             (if i = 0 then 0 else cumulative_drop_mV (fst (segs ! (i - 1))))
             (if i = 0 then input_len_in inp lid else distance (hubs ! i))
             (calculate_current hubs i) = Inr (fst (segs ! i))
         \<and> snd (segs ! i) =
             result_row_of lid (if i = 0 then APWRLINK else hub_name (hubs ! (i - 1)))
               (hub_name (hubs ! i)) (fst (segs ! i))"
  proof (intro allI impI)
    fix i assume i: "i < length hubs"
    show "segment (cable_area inp) (reference_voltage inp)
             (if i = 0 then 0 else cumulative_drop_mV (fst (segs ! (i - 1))))
             (if i = 0 then input_len_in inp lid else distance (hubs ! i))
             (calculate_current hubs i) = Inr (fst (segs ! i))
         \<and> snd (segs ! i) =
             result_row_of lid (if i = 0 then APWRLINK else hub_name (hubs ! (i - 1)))
               (hub_name (hubs ! i)) (fst (segs ! i))"
    proof (cases i)
      case 0
      then show ?thesis by (simp add: segs v0)
    next
      case (Suc j)
      with i have "j < length hubs - 1" by simp
      with nth have "segment (cable_area inp) (reference_voltage inp)
                   (if j = 0 then cumulative_drop_mV v0 else cumulative_drop_mV (fst (rest ! (j - 1))))
                   (distance (hubs ! (1 + j))) (calculate_current hubs (1 + j))
                 = Inr (fst (rest ! j))
               \<and> snd (rest ! j) =
                   result_row_of lid (hub_name (hubs ! (1 + j - 1))) (hub_name (hubs ! (1 + j)))
                     (fst (rest ! j))" by blast
      then show ?thesis by (cases j) (simp_all add: Suc segs)
    qed
  qed
qed


lemma run_Inr_D:
  assumes "run inp = Inr out"
  shows "APWRHUB 1 \<in> set (selected_link_starts inp)"
    and "\<exists>idx calc.
           map_err (index_of (hub_names (num_hubs (total_anodes inp)))) (selected_link_starts inp) = Inr idx
         \<and> out_anodes_here out =
             map fst (hub_config inp (link_assignments (num_hubs (total_anodes inp)) (sort idx)))
         \<and> out_hub_data out =
             map snd (hub_config inp (link_assignments (num_hubs (total_anodes inp)) (sort idx)))
         \<and> out_link_groups out = link_groups (out_hub_data out)
         \<and> calc_loop inp (out_link_groups out) = Inr calc
         \<and> out_segments out = map (\<lambda>(lid, segs). (lid, map fst segs)) calc
         \<and> out_link_results out = map (\<lambda>(lid, segs). (lid, map snd segs)) calc
         \<and> out_results out = concat (map snd (out_link_results out))
         \<and> map_err (\<lambda>(lid, link_data).
                      bind_err (link_analysis inp link_data) (\<lambda>s. Inr (lid, s)))
              (out_link_results out) = Inr (out_link_status out)
         \<and> overall_analysis inp (out_hub_data out) (out_results out) (out_link_results out)
             = Inr (out_overall out)"
proof -
  show s: "APWRHUB 1 \<in> set (selected_link_starts inp)"
    using assms by (auto simp: run_def Let_def split: if_splits)
  show "\<exists>idx calc.
           map_err (index_of (hub_names (num_hubs (total_anodes inp)))) (selected_link_starts inp) = Inr idx
         \<and> out_anodes_here out =
             map fst (hub_config inp (link_assignments (num_hubs (total_anodes inp)) (sort idx)))
         \<and> out_hub_data out =
             map snd (hub_config inp (link_assignments (num_hubs (total_anodes inp)) (sort idx)))
         \<and> out_link_groups out = link_groups (out_hub_data out)
         \<and> calc_loop inp (out_link_groups out) = Inr calc
         \<and> out_segments out = map (\<lambda>(lid, segs). (lid, map fst segs)) calc
         \<and> out_link_results out = map (\<lambda>(lid, segs). (lid, map snd segs)) calc
         \<and> out_results out = concat (map snd (out_link_results out))
         \<and> map_err (\<lambda>(lid, link_data).
                      bind_err (link_analysis inp link_data) (\<lambda>s. Inr (lid, s)))
              (out_link_results out) = Inr (out_link_status out)
         \<and> overall_analysis inp (out_hub_data out) (out_results out) (out_link_results out)
             = Inr (out_overall out)"
    using assms s unfolding run_def Let_def
    by (auto simp: bind_err_Inr_iff)
qed

lemma run_link:
  assumes run: "run inp = Inr out"
    and k: "k < length (out_link_groups out)"
    and g: "out_link_groups out ! k = (lid, hubs)"
  shows "\<exists>sr. link_calc inp lid hubs = Inr sr
            \<and> out_segments out ! k = (lid, map fst sr)
            \<and> out_link_results out ! k = (lid, map snd sr)"
    and "length (out_segments out) = length (out_link_groups out)"
    and "length (out_link_results out) = length (out_link_groups out)"
proof -
  from run_Inr_D(2) [OF run] obtain calc where
    calc: "calc_loop inp (out_link_groups out) = Inr calc"
    and segs: "out_segments out = map (\<lambda>(lid, segs). (lid, map fst segs)) calc"
    and rows: "out_link_results out = map (\<lambda>(lid, segs). (lid, map snd segs)) calc"
    by blast
  from map_err_Inr [OF calc [unfolded calc_loop_def]]
  have len: "length calc = length (out_link_groups out)"
    and nth: "\<forall>k<length (out_link_groups out).
               (case out_link_groups out ! k of (lid, hubs) \<Rightarrow>
                  bind_err (link_calc inp lid hubs) (\<lambda>segs. Inr (lid, segs))) = Inr (calc ! k)"
    by simp_all
  from nth k g have "bind_err (link_calc inp lid hubs) (\<lambda>segs. Inr (lid, segs)) = Inr (calc ! k)"
    by auto
  then obtain sr where sr: "link_calc inp lid hubs = Inr sr" and ck: "calc ! k = (lid, sr)"
    by (auto simp: bind_err_Inr_iff)
  show "\<exists>sr. link_calc inp lid hubs = Inr sr
            \<and> out_segments out ! k = (lid, map fst sr)
            \<and> out_link_results out ! k = (lid, map snd sr)"
    using sr ck k len by (auto simp: segs rows)
  show "length (out_segments out) = length (out_link_groups out)" by (simp add: segs len)
  show "length (out_link_results out) = length (out_link_groups out)" by (simp add: rows len)
qed

lemma round_half_even_of_int: "round_half_even (of_int k) = k"
  by (simp add: round_half_even_def)

lemma py_round_milli: "py_round (of_int k / 1000) 3 = of_int k / 1000"
proof -
  have "(of_int k / 1000 :: rat) * 10 ^ 3 = of_int k" by simp
  then show ?thesis unfolding py_round_def by (simp only: round_half_even_of_int) simp
qed

lemma berechnung_strom:
  assumes "berechnung q hs ds cc cv [k..<n] = Inr zs"
  shows "length zs = n - k
       \<and> (\<forall>j<n - k. strom_A (zs ! j) = of_int (cc + sum_list (map ((!) hs) [k..<Suc (k + j)])) / 1000)"
  using assms
proof (induction "n - k" arbitrary: k cc cv zs)
  case 0
  then show ?case by simp
next
  case (Suc m)
  then have kn: "k < n" and m: "m = n - Suc k" by simp_all
  from Suc.prems kn obtain lw sa rest where
    w: "widerstand_und_abfall q k (ds ! k) (of_int (cc + hs ! k) / 1000) = Inr (lw, sa)"
    and rest: "berechnung q hs ds (cc + hs ! k) (cv + sa) [Suc k..<n] = Inr rest"
    and zs: "zs = \<lparr>strom_A = of_int (cc + hs ! k) / 1000, leitungswiderstand = lw,
                    spannungsabfall = sa, spannung_kumuliert = cv + sa,
                    spannungsabfall_mV = (cv + sa) * 1000,
                    spannungsabfall_prozent = ((cv + sa) / max_erlaubter_spannungsabfall) * 100\<rparr> # rest"
    by (auto simp: upt_conv_Cons Let_def bind_err_Inr_iff)
  from Suc.hyps(1) [OF m rest] have len: "length rest = n - Suc k"
    and nth: "\<forall>j<n - Suc k. strom_A (rest ! j)
                = of_int (cc + hs ! k + sum_list (map ((!) hs) [Suc k..<Suc (Suc k + j)])) / 1000"
    by simp_all
  show ?case
  proof (intro conjI allI impI)
    show "length zs = n - k" using len kn by (simp add: zs)
  next
    fix j assume j: "j < n - k"
    show "strom_A (zs ! j) = of_int (cc + sum_list (map ((!) hs) [k..<Suc (k + j)])) / 1000"
    proof (cases j)
      case 0
      then show ?thesis by (simp add: zs)
    next
      case (Suc j')
      with j have "j' < n - Suc k" by simp
      with nth have "strom_A (rest ! j')
                = of_int (cc + hs ! k + sum_list (map ((!) hs) [Suc k..<Suc (Suc k + j')])) / 1000"
        by blast
      moreover have "[k..<Suc (k + j)] = k # [Suc k..<Suc (Suc k + j')]"
        by (simp add: Suc upt_conv_Cons)
      ultimately show ?thesis by (simp add: zs Suc add.assoc)
    qed
  qed
qed

lemma main_berechnung_strom:
  assumes "main_berechnung q hs ds = Inr zs"
  shows "length zs = length hs"
    and "\<forall>i<length hs. strom_A (zs ! i) = of_int (sum_list (take (Suc i) hs)) / 1000"
proof -
  from berechnung_strom [of q hs ds 0 0 0 "length hs" zs] assms
  have len: "length zs = length hs"
    and nth: "\<forall>j<length hs. strom_A (zs ! j) = of_int (sum_list (map ((!) hs) [0..<Suc j])) / 1000"
    by (simp_all add: main_berechnung_def py_range_length)
  show "length zs = length hs" by (rule len)
  show "\<forall>i<length hs. strom_A (zs ! i) = of_int (sum_list (take (Suc i) hs)) / 1000"
  proof (intro allI impI)
    fix i assume i: "i < length hs"
    have "map ((!) hs) [0..<Suc i] = take (Suc i) hs"
      using i by (metis Suc_leI map_nth take_map take_upt add_0)
    then have "sum_list (map ((!) hs) [0..<Suc i]) = sum_list (take (Suc i) hs)"
      by (rule arg_cong)
    moreover from nth i
    have "strom_A (zs ! i) = of_int (sum_list (map ((!) hs) [0..<Suc i])) / 1000" by blast
    ultimately show "strom_A (zs ! i) = of_int (sum_list (take (Suc i) hs)) / 1000"
      by (simp only:)
  qed
qed

subsection \<open>Segment currents\<close>

lemma link_calc_current:
  assumes "link_calc inp lid hubs = Inr sr" "i < length hubs"
  shows "I_A (map fst sr ! i) = of_int (sum_list (map current_mA (drop i hubs))) / 1000"
    and "row_Current_A (map snd sr ! i) = I_A (map fst sr ! i)"
proof -
  from link_calc_Inr_D(4,5) [OF assms(1)] assms(2)
  have len: "length sr = length hubs"
    and seg: "segment (cable_area inp) (reference_voltage inp)
             (if i = 0 then 0 else cumulative_drop_mV (fst (sr ! (i - 1))))
             (if i = 0 then input_len_in inp lid else distance (hubs ! i))
             (calculate_current hubs i) = Inr (fst (sr ! i))"
    and row: "snd (sr ! i) =
             result_row_of lid (if i = 0 then APWRLINK else hub_name (hubs ! (i - 1)))
               (hub_name (hubs ! i)) (fst (sr ! i))"
    by simp_all
  have ia: "I_A (fst (sr ! i)) = calculate_current hubs i"
    by (rule segment_Inr_D(4) [OF seg])
  show c: "I_A (map fst sr ! i) = of_int (sum_list (map current_mA (drop i hubs))) / 1000"
    using assms(2) len ia by (simp add: calculate_current_def)
  have "row_Current_A (snd (sr ! i)) = py_round (I_A (fst (sr ! i))) 3"
    by (simp add: row result_row_of_def)
  also have "\<dots> = I_A (fst (sr ! i))"
    unfolding ia calculate_current_def by (rule py_round_milli)
  finally show "row_Current_A (map snd sr ! i) = I_A (map fst sr ! i)"
    using assms(2) len by simp
qed

text \<open>
  Claim C1, as amended.  In \<^verbatim>\<open>main2.py\<close>, for every link and every segment index
  \<open>i\<close>, the current of segment \<open>i\<close> is the sum of the currents of the hubs \<open>i..end\<close>
  of that link (in amperes: the milliamp sum divided by 1000), the result row holds the
  same value, and segment 0 carries the sum over all hubs of the link.  In \<^verbatim>\<open>main.py\<close>
  the current used for segment \<open>i\<close> is the running total of the hubs \<open>0..i\<close>.
\<close>

theorem segment_current:
  "(run inp = Inr out \<longrightarrow>
      (\<forall>k<length (out_link_groups out). \<exists>lid hubs segs rows.
          out_link_groups out ! k = (lid, hubs)
        \<and> out_segments out ! k = (lid, segs)
        \<and> out_link_results out ! k = (lid, rows)
        \<and> hubs \<noteq> [] \<and> length segs = length hubs \<and> length rows = length hubs
        \<and> (\<forall>i<length hubs.
              I_A (segs ! i) = of_int (sum_list (map current_mA (drop i hubs))) / 1000
            \<and> row_Current_A (rows ! i) = I_A (segs ! i))
        \<and> I_A (segs ! 0) = of_int (sum_list (map current_mA hubs)) / 1000))
 \<and> (main_berechnung q hs ds = Inr zs \<longrightarrow>
      length zs = length hs
    \<and> (\<forall>i<length hs. strom_A (zs ! i) = of_int (sum_list (take (Suc i) hs)) / 1000))"
proof (intro conjI impI allI)
  fix k
  assume run: "run inp = Inr out" and k: "k < length (out_link_groups out)"
  obtain lid hubs where g: "out_link_groups out ! k = (lid, hubs)"
    by (cases "out_link_groups out ! k")
  from run_link(1) [OF run k g] obtain sr where
    sr: "link_calc inp lid hubs = Inr sr"
    and segs: "out_segments out ! k = (lid, map fst sr)"
    and rows: "out_link_results out ! k = (lid, map snd sr)"
    by blast
  have ne: "hubs \<noteq> []" and len: "length sr = length hubs"
    using link_calc_Inr_D(1,4) [OF sr] by simp_all
  have cur: "\<forall>i<length hubs.
              I_A (map fst sr ! i) = of_int (sum_list (map current_mA (drop i hubs))) / 1000
            \<and> row_Current_A (map snd sr ! i) = I_A (map fst sr ! i)"
    using link_calc_current [OF sr] by blast
  from ne have "0 < length hubs" by simp
  with cur have "I_A (map fst sr ! 0) = of_int (sum_list (map current_mA (drop 0 hubs))) / 1000"
    by blast
  then have c0: "I_A (map fst sr ! 0) = of_int (sum_list (map current_mA hubs)) / 1000"
    by simp
  show "\<exists>lid hubs segs rows.
          out_link_groups out ! k = (lid, hubs)
        \<and> out_segments out ! k = (lid, segs)
        \<and> out_link_results out ! k = (lid, rows)
        \<and> hubs \<noteq> [] \<and> length segs = length hubs \<and> length rows = length hubs
        \<and> (\<forall>i<length hubs.
              I_A (segs ! i) = of_int (sum_list (map current_mA (drop i hubs))) / 1000
            \<and> row_Current_A (rows ! i) = I_A (segs ! i))
        \<and> I_A (segs ! 0) = of_int (sum_list (map current_mA hubs)) / 1000"
    using g segs rows ne len cur c0
    by (intro exI [of _ lid] exI [of _ hubs] exI [of _ "map fst sr"] exI [of _ "map snd sr"])
       simp
next
  assume "main_berechnung q hs ds = Inr zs"
  then show "length zs = length hs" by (rule main_berechnung_strom(1))
next
  fix i
  assume "main_berechnung q hs ds = Inr zs" "i < length hs"
  then show "strom_A (zs ! i) = of_int (sum_list (take (Suc i) hs)) / 1000"
    using main_berechnung_strom(2) by blast
qed

theorem segment_current_witness:
  "run ex_two_links = Inr (projr (run ex_two_links))
   \<and> main_berechnung 4 [1000, 2000] [10, 10] = Inr (projr (main_berechnung 4 [1000, 2000] [10, 10]))
   \<and> (\<exists>lid hubs segs rows.
          out_link_groups (projr (run ex_two_links)) ! 0 = (lid, hubs)
        \<and> out_segments (projr (run ex_two_links)) ! 0 = (lid, segs)
        \<and> out_link_results (projr (run ex_two_links)) ! 0 = (lid, rows)
        \<and> hubs \<noteq> [] \<and> length segs = length hubs \<and> length rows = length hubs
        \<and> (\<forall>i<length hubs.
              I_A (segs ! i) = of_int (sum_list (map current_mA (drop i hubs))) / 1000
            \<and> row_Current_A (rows ! i) = I_A (segs ! i))
        \<and> I_A (segs ! 0) = of_int (sum_list (map current_mA hubs)) / 1000)
   \<and> strom_A (projr (main_berechnung 4 [1000, 2000] [10, 10]) ! 1)
       = of_int (sum_list (take (Suc 1) [1000, 2000])) / 1000"
proof -
  have h1: "run ex_two_links = Inr (projr (run ex_two_links))"
    unfolding ex_two_links_def by code_simp
  have h2: "main_berechnung 4 [1000, 2000] [10, 10]
            = Inr (projr (main_berechnung 4 [1000, 2000] [10, 10]))"
    by code_simp
  have k: "0 < length (out_link_groups (projr (run ex_two_links)))"
    unfolding ex_two_links_def by code_simp
  have i: "1 < length [1000, 2000 :: int]" by simp
  from segment_current [of ex_two_links "projr (run ex_two_links)" 4 "[1000, 2000]" "[10, 10]"
      "projr (main_berechnung 4 [1000, 2000] [10, 10])"] h1 h2 k i
  show ?thesis by blast
qed

text \<open>
  The claim as stated fails on \<^verbatim>\<open>main.py\<close>: with hub currents 1000 mA and 2000 mA the
  first segment is computed with 1 A (not the 3 A of all hubs) and the second with 3 A
  (not the 2 A of the last hub).
\<close>

theorem main_segment_current_counterexample:
  "map strom_A (projr (main_berechnung 4 [1000, 2000] [10, 10])) = [1, 3]
   \<and> strom_A (projr (main_berechnung 4 [1000, 2000] [10, 10]) ! 0)
       \<noteq> of_int (sum_list (drop 0 [1000, 2000])) / 1000
   \<and> strom_A (projr (main_berechnung 4 [1000, 2000] [10, 10]) ! 1)
       \<noteq> of_int (sum_list (drop 1 [1000, 2000])) / 1000"
  by code_simp

subsection \<open>Monotonicity of the segment currents\<close>

lemma sum_list_drop_mono:
  assumes "\<forall>h\<in>set hubs. 0 \<le> current_mA h" "i \<le> j"
  shows "sum_list (map current_mA (drop j hubs)) \<le> sum_list (map current_mA (drop i hubs))"
proof -
  have "drop i hubs = take (j - i) (drop i hubs) @ drop j hubs"
    using assms(2) by (metis append_take_drop_id drop_drop le_add_diff_inverse2)
  then have "sum_list (map current_mA (drop i hubs)) =
        sum_list (map current_mA (take (j - i) (drop i hubs))) + sum_list (map current_mA (drop j hubs))"
    by (metis map_append sum_list_append)
  moreover have "0 \<le> sum_list (map current_mA (take (j - i) (drop i hubs)))"
  proof (rule sum_list_nonneg)
    fix x assume "x \<in> set (map current_mA (take (j - i) (drop i hubs)))"
    then obtain h where "h \<in> set (take (j - i) (drop i hubs))" "x = current_mA h" by auto
    then have "h \<in> set hubs" by (meson in_set_dropD in_set_takeD)
    with assms(1) \<open>x = current_mA h\<close> show "0 \<le> x" by simp
  qed
  ultimately show ?thesis by simp
qed

lemma sum_list_take_mono:
  assumes "\<forall>x\<in>set (hs :: int list). 0 \<le> x" "i \<le> j"
  shows "sum_list (take i hs) \<le> sum_list (take j hs)"
proof -
  have "take j hs = take i hs @ take (j - i) (drop i hs)"
    using assms(2) by (metis le_add_diff_inverse take_add)
  then have "sum_list (take j hs) = sum_list (take i hs) + sum_list (take (j - i) (drop i hs))"
    by (metis sum_list_append)
  moreover have "0 \<le> sum_list (take (j - i) (drop i hs))"
  proof (rule sum_list_nonneg)
    fix x assume "x \<in> set (take (j - i) (drop i hs))"
    then have "x \<in> set hs" by (meson in_set_dropD in_set_takeD)
    with assms(1) show "0 \<le> x" by simp
  qed
  ultimately show ?thesis by simp
qed

text \<open>
  Claim C3, as amended.  In \<^verbatim>\<open>main2.py\<close>, for every link whose hub currents are all
  non-negative, segment 0 carries the full load of the link and the segment currents are
  non-increasing along the chain.  In \<^verbatim>\<open>main.py\<close>, with non-negative hub currents, the
  currents used for successive segments are non-decreasing.
\<close>

theorem segment_currents_monotone:
  "(run inp = Inr out \<longrightarrow>
      (\<forall>k<length (out_link_groups out). \<exists>lid hubs segs.
          out_link_groups out ! k = (lid, hubs)
        \<and> out_segments out ! k = (lid, segs)
        \<and> hubs \<noteq> [] \<and> length segs = length hubs
        \<and> ((\<forall>h\<in>set hubs. 0 \<le> current_mA h) \<longrightarrow>
              I_A (segs ! 0) = of_int (sum_list (map current_mA hubs)) / 1000
            \<and> (\<forall>i j. i \<le> j \<and> j < length hubs \<longrightarrow> I_A (segs ! j) \<le> I_A (segs ! i)))))
 \<and> (main_berechnung q hs ds = Inr zs \<and> (\<forall>x\<in>set hs. 0 \<le> x) \<longrightarrow>
      (\<forall>i j. i \<le> j \<and> j < length hs \<longrightarrow> strom_A (zs ! i) \<le> strom_A (zs ! j)))"
proof (intro conjI impI allI)
  fix k
  assume run: "run inp = Inr out" and k: "k < length (out_link_groups out)"
  obtain lid hubs where g: "out_link_groups out ! k = (lid, hubs)"
    by (cases "out_link_groups out ! k")
  from run_link(1) [OF run k g] obtain sr where
    sr: "link_calc inp lid hubs = Inr sr"
    and segs: "out_segments out ! k = (lid, map fst sr)"
    by blast
  have ne: "hubs \<noteq> []" and len: "length sr = length hubs"
    using link_calc_Inr_D(1,4) [OF sr] by simp_all
  have mono: "(\<forall>h\<in>set hubs. 0 \<le> current_mA h) \<longrightarrow>
              I_A (map fst sr ! 0) = of_int (sum_list (map current_mA hubs)) / 1000
            \<and> (\<forall>i j. i \<le> j \<and> j < length hubs \<longrightarrow> I_A (map fst sr ! j) \<le> I_A (map fst sr ! i))"
  proof (intro impI conjI allI)
    from ne have "0 < length hubs" by simp
    from link_calc_current(1) [OF sr this]
    show "I_A (map fst sr ! 0) = of_int (sum_list (map current_mA hubs)) / 1000" by simp
  next
    fix i j
    assume nn: "\<forall>h\<in>set hubs. 0 \<le> current_mA h" and ij: "i \<le> j \<and> j < length hubs"
    then have i: "i < length hubs" and j: "j < length hubs" by simp_all
    have "sum_list (map current_mA (drop j hubs)) \<le> sum_list (map current_mA (drop i hubs))"
      using sum_list_drop_mono [OF nn] ij by blast
    then show "I_A (map fst sr ! j) \<le> I_A (map fst sr ! i)"
      unfolding link_calc_current(1) [OF sr i] link_calc_current(1) [OF sr j]
      by (simp add: divide_right_mono)
  qed
  show "\<exists>lid hubs segs.
          out_link_groups out ! k = (lid, hubs)
        \<and> out_segments out ! k = (lid, segs)
        \<and> hubs \<noteq> [] \<and> length segs = length hubs
        \<and> ((\<forall>h\<in>set hubs. 0 \<le> current_mA h) \<longrightarrow>
              I_A (segs ! 0) = of_int (sum_list (map current_mA hubs)) / 1000
            \<and> (\<forall>i j. i \<le> j \<and> j < length hubs \<longrightarrow> I_A (segs ! j) \<le> I_A (segs ! i)))"
    using g segs ne len mono
    by (intro exI [of _ lid] exI [of _ hubs] exI [of _ "map fst sr"]) simp
next
  fix i j
  assume a: "main_berechnung q hs ds = Inr zs \<and> (\<forall>x\<in>set hs. 0 \<le> x)"
    and ij: "i \<le> j \<and> j < length hs"
  then have i: "i < length hs" and j: "j < length hs" by simp_all
  from a have zs: "main_berechnung q hs ds = Inr zs" and nn: "\<forall>x\<in>set hs. 0 \<le> x" by simp_all
  have "sum_list (take (Suc i) hs) \<le> sum_list (take (Suc j) hs)"
    using sum_list_take_mono [OF nn] ij by simp
  moreover have "strom_A (zs ! i) = of_int (sum_list (take (Suc i) hs)) / 1000"
    using main_berechnung_strom(2) [OF zs] i by blast
  moreover have "strom_A (zs ! j) = of_int (sum_list (take (Suc j) hs)) / 1000"
    using main_berechnung_strom(2) [OF zs] j by blast
  ultimately show "strom_A (zs ! i) \<le> strom_A (zs ! j)"
    by (simp add: divide_right_mono)
qed

text \<open>
  The claim as stated fails on \<^verbatim>\<open>main.py\<close>: the second segment is computed with a
  larger current than the first.
\<close>

theorem main_segment_currents_increase_counterexample:
  "list_all (\<lambda>x. 0 \<le> x) [625, 1250, 625 :: int]
   \<and> map strom_A (projr (main_berechnung 4 [625, 1250, 625] [10, 10, 10])) = [5 / 8, 15 / 8, 5 / 2]
   \<and> \<not> strom_A (projr (main_berechnung 4 [625, 1250, 625] [10, 10, 10]) ! 1)
         \<le> strom_A (projr (main_berechnung 4 [625, 1250, 625] [10, 10, 10]) ! 0)"
  by code_simp

theorem segment_currents_monotone_witness:
  "run ex_two_links = Inr (projr (run ex_two_links))
   \<and> main_berechnung 4 [625, 1250, 625] [10, 10, 10]
       = Inr (projr (main_berechnung 4 [625, 1250, 625] [10, 10, 10]))
   \<and> (\<exists>lid hubs segs.
          out_link_groups (projr (run ex_two_links)) ! 0 = (lid, hubs)
        \<and> out_segments (projr (run ex_two_links)) ! 0 = (lid, segs)
        \<and> hubs = [\<lparr>hub_name = APWRHUB 1, link_id = 1, distance = 10, current_mA = 5000\<rparr>,
                   \<lparr>hub_name = APWRHUB 2, link_id = 1, distance = 10, current_mA = 5000\<rparr>]
        \<and> I_A (segs ! 1) \<le> I_A (segs ! 0))
   \<and> strom_A (projr (main_berechnung 4 [625, 1250, 625] [10, 10, 10]) ! 0)
       \<le> strom_A (projr (main_berechnung 4 [625, 1250, 625] [10, 10, 10]) ! 2)"
proof -
  let ?out = "projr (run ex_two_links)"
  let ?zs = "projr (main_berechnung 4 [625, 1250, 625] [10, 10, 10])"
  have h1: "run ex_two_links = Inr ?out"
    unfolding ex_two_links_def by code_simp
  have h2: "main_berechnung 4 [625, 1250, 625] [10, 10, 10] = Inr ?zs"
    by code_simp
  have k: "0 < length (out_link_groups ?out)"
    unfolding ex_two_links_def by code_simp
  have g: "out_link_groups ?out ! 0 =
             (1, [\<lparr>hub_name = APWRHUB 1, link_id = 1, distance = 10, current_mA = 5000\<rparr>,
                  \<lparr>hub_name = APWRHUB 2, link_id = 1, distance = 10, current_mA = 5000\<rparr>])"
    unfolding ex_two_links_def by code_simp
  have nn: "\<forall>x\<in>set [625, 1250, 625 :: int]. 0 \<le> x" by simp
  note inst = segment_currents_monotone [of ex_two_links ?out 4 "[625, 1250, 625]" "[10, 10, 10]" ?zs]
  from inst h1 k obtain lid hubs segs where
    l: "out_link_groups ?out ! 0 = (lid, hubs)"
    and s: "out_segments ?out ! 0 = (lid, segs)"
    and m: "(\<forall>h\<in>set hubs. 0 \<le> current_mA h) \<longrightarrow>
              I_A (segs ! 0) = of_int (sum_list (map current_mA hubs)) / 1000
            \<and> (\<forall>i j. i \<le> j \<and> j < length hubs \<longrightarrow> I_A (segs ! j) \<le> I_A (segs ! i))"
    by blast
  from l g have hubs: "hubs = [\<lparr>hub_name = APWRHUB 1, link_id = 1, distance = 10, current_mA = 5000\<rparr>,
                  \<lparr>hub_name = APWRHUB 2, link_id = 1, distance = 10, current_mA = 5000\<rparr>]"
    by (metis snd_conv)
  have "\<forall>h\<in>set hubs. 0 \<le> current_mA h" unfolding hubs by simp
  with m have "\<forall>i j. i \<le> j \<and> j < length hubs \<longrightarrow> I_A (segs ! j) \<le> I_A (segs ! i)"
    by blast
  moreover have "(0::nat) \<le> 1 \<and> 1 < length hubs" unfolding hubs by simp
  ultimately have "I_A (segs ! 1) \<le> I_A (segs ! 0)" by blast
  moreover from inst h2 nn have "strom_A (?zs ! 0) \<le> strom_A (?zs ! 2)" by simp
  ultimately show ?thesis using h1 h2 l s hubs by blast
qed

subsection \<open>main.py: the rows of the calculation loop\<close>

lemma berechnung_rows:
  assumes "berechnung q hs ds cc cv [k..<n] = Inr zs"
  shows "length zs = n - k
       \<and> (\<forall>j<n - k.
             spannungsabfall_prozent (zs ! j)
               = (spannung_kumuliert (zs ! j) / max_erlaubter_spannungsabfall) * 100
           \<and> spannungsabfall_mV (zs ! j) = spannung_kumuliert (zs ! j) * 1000
           \<and> (k + j = 0 \<longrightarrow> leitungswiderstand (zs ! j) = 0 \<and> spannungsabfall (zs ! j) = 0)
           \<and> (k + j \<noteq> 0 \<longrightarrow>
                 leitungswiderstand (zs ! j) = (2 * (ds ! (k + j))) / (leitfaehigkeit_kupfer * q)
               \<and> spannungsabfall (zs ! j) = leitungswiderstand (zs ! j) * strom_A (zs ! j)))"
  using assms
proof (induction "n - k" arbitrary: k cc cv zs)
  case 0
  then show ?case by simp
next
  case (Suc m)
  then have kn: "k < n" and m: "m = n - Suc k" by simp_all
  from Suc.prems kn obtain lw sa rest where
    w: "widerstand_und_abfall q k (ds ! k) (of_int (cc + hs ! k) / 1000) = Inr (lw, sa)"
    and rest: "berechnung q hs ds (cc + hs ! k) (cv + sa) [Suc k..<n] = Inr rest"
    and zs: "zs = \<lparr>strom_A = of_int (cc + hs ! k) / 1000, leitungswiderstand = lw,
                    spannungsabfall = sa, spannung_kumuliert = cv + sa,
                    spannungsabfall_mV = (cv + sa) * 1000,
                    spannungsabfall_prozent = ((cv + sa) / max_erlaubter_spannungsabfall) * 100\<rparr> # rest"
    by (auto simp: upt_conv_Cons Let_def bind_err_Inr_iff)
  from w have w0: "k = 0 \<longrightarrow> lw = 0 \<and> sa = 0"
    and w1: "k \<noteq> 0 \<longrightarrow> lw = (2 * (ds ! k)) / (leitfaehigkeit_kupfer * q)
                       \<and> sa = lw * (of_int (cc + hs ! k) / 1000)"
    by (auto simp: widerstand_und_abfall_def Let_def split: if_splits)
  from Suc.hyps(1) [OF m rest] have len: "length rest = n - Suc k"
    and nth: "\<forall>j<n - Suc k.
             spannungsabfall_prozent (rest ! j)
               = (spannung_kumuliert (rest ! j) / max_erlaubter_spannungsabfall) * 100
           \<and> spannungsabfall_mV (rest ! j) = spannung_kumuliert (rest ! j) * 1000
           \<and> (Suc k + j = 0 \<longrightarrow> leitungswiderstand (rest ! j) = 0 \<and> spannungsabfall (rest ! j) = 0)
           \<and> (Suc k + j \<noteq> 0 \<longrightarrow>
                 leitungswiderstand (rest ! j) = (2 * (ds ! (Suc k + j))) / (leitfaehigkeit_kupfer * q)
               \<and> spannungsabfall (rest ! j) = leitungswiderstand (rest ! j) * strom_A (rest ! j))"
    by simp_all
  show ?case
  proof (intro conjI allI impI)
    show "length zs = n - k" using len kn by (simp add: zs)
  next
    fix j assume j: "j < n - k"
    show "spannungsabfall_prozent (zs ! j)
               = (spannung_kumuliert (zs ! j) / max_erlaubter_spannungsabfall) * 100"
      using j nth by (cases j) (simp_all add: zs)
    show "spannungsabfall_mV (zs ! j) = spannung_kumuliert (zs ! j) * 1000"
      using j nth by (cases j) (simp_all add: zs)
  next
    fix j assume j: "j < n - k" and "k + j = 0"
    then have "j = 0" "k = 0" by simp_all
    with w0 show "leitungswiderstand (zs ! j) = 0" "spannungsabfall (zs ! j) = 0"
      by (simp_all add: zs)
  next
    fix j assume j: "j < n - k" and kj: "k + j \<noteq> 0"
    show "leitungswiderstand (zs ! j) = (2 * (ds ! (k + j))) / (leitfaehigkeit_kupfer * q)"
    proof (cases j)
      case 0
      with kj w1 show ?thesis by (simp add: zs)
    next
      case (Suc j')
      with j have "j' < n - Suc k" by simp
      with nth show ?thesis by (simp add: zs Suc)
    qed
    show "spannungsabfall (zs ! j) = leitungswiderstand (zs ! j) * strom_A (zs ! j)"
    proof (cases j)
      case 0
      with kj have "k \<noteq> 0" by simp
      with w1 have sa: "sa = lw * (of_int (cc + hs ! k) / 1000)" by blast
      have f: "spannungsabfall (zs ! j) = sa" "leitungswiderstand (zs ! j) = lw"
        "strom_A (zs ! j) = of_int (cc + hs ! k) / 1000"
        by (simp_all add: zs 0)
      show ?thesis unfolding f by (rule sa)
    next
      case (Suc j')
      with j have "j' < n - Suc k" by simp
      with nth show ?thesis by (simp add: zs Suc)
    qed
  qed
qed

lemma main_berechnung_rows:
  assumes "main_berechnung q hs ds = Inr zs" "i < length hs"
  shows "spannungsabfall_prozent (zs ! i)
           = (spannung_kumuliert (zs ! i) / max_erlaubter_spannungsabfall) * 100"
    and "spannungsabfall_mV (zs ! i) = spannung_kumuliert (zs ! i) * 1000"
    and "i = 0 \<Longrightarrow> leitungswiderstand (zs ! i) = 0 \<and> spannungsabfall (zs ! i) = 0"
    and "i \<noteq> 0 \<Longrightarrow> leitungswiderstand (zs ! i) = (2 * (ds ! i)) / (leitfaehigkeit_kupfer * q)
                   \<and> spannungsabfall (zs ! i) = leitungswiderstand (zs ! i) * strom_A (zs ! i)"
proof -
  have b: "berechnung q hs ds 0 0 [0..<length hs] = Inr zs"
    using assms(1) by (simp add: main_berechnung_def py_range_length)
  from berechnung_rows [OF b] assms(2)
  have r: "spannungsabfall_prozent (zs ! i)
               = (spannung_kumuliert (zs ! i) / max_erlaubter_spannungsabfall) * 100
           \<and> spannungsabfall_mV (zs ! i) = spannung_kumuliert (zs ! i) * 1000
           \<and> (0 + i = 0 \<longrightarrow> leitungswiderstand (zs ! i) = 0 \<and> spannungsabfall (zs ! i) = 0)
           \<and> (0 + i \<noteq> 0 \<longrightarrow>
                 leitungswiderstand (zs ! i) = (2 * (ds ! (0 + i))) / (leitfaehigkeit_kupfer * q)
               \<and> spannungsabfall (zs ! i) = leitungswiderstand (zs ! i) * strom_A (zs ! i))"
    by (metis diff_zero)
  from r show "spannungsabfall_prozent (zs ! i)
           = (spannung_kumuliert (zs ! i) / max_erlaubter_spannungsabfall) * 100"
    and "spannungsabfall_mV (zs ! i) = spannung_kumuliert (zs ! i) * 1000"
    by blast+
  from r show "i = 0 \<Longrightarrow> leitungswiderstand (zs ! i) = 0 \<and> spannungsabfall (zs ! i) = 0"
    by simp
  from r show "i \<noteq> 0 \<Longrightarrow> leitungswiderstand (zs ! i) = (2 * (ds ! i)) / (leitfaehigkeit_kupfer * q)
                   \<and> spannungsabfall (zs ! i) = leitungswiderstand (zs ! i) * strom_A (zs ! i)"
    by simp
qed

subsection \<open>The fields of a segment\<close>

lemma link_calc_fields:
  assumes "link_calc inp lid hubs = Inr sr" "i < length hubs"
  shows "seg_L (fst (sr ! i)) = (if i = 0 then input_len_in inp lid else distance (hubs ! i))"
    and "I_A (fst (sr ! i)) = calculate_current hubs i"
    and "seg_R (fst (sr ! i)) = COPPER_RESISTIVITY * seg_L (fst (sr ! i)) / cable_area inp"
    and "U_drop_mV (fst (sr ! i)) = I_A (fst (sr ! i)) * seg_R (fst (sr ! i)) * 1000"
    and "cumulative_drop_mV (fst (sr ! i)) =
           (if i = 0 then 0 else cumulative_drop_mV (fst (sr ! (i - 1)))) + U_drop_mV (fst (sr ! i))"
    and "remaining_voltage (fst (sr ! i)) = LINK_VOLTAGE - cumulative_drop_mV (fst (sr ! i)) / 1000"
    and "percent_drop (fst (sr ! i)) =
           cumulative_drop_mV (fst (sr ! i)) / (reference_voltage inp * 1000) * 100"
    and "snd (sr ! i) =
           result_row_of lid (if i = 0 then APWRLINK else hub_name (hubs ! (i - 1)))
             (hub_name (hubs ! i)) (fst (sr ! i))"
proof -
  from link_calc_Inr_D(5) [OF assms(1)] assms(2)
  have seg: "segment (cable_area inp) (reference_voltage inp)
             (if i = 0 then 0 else cumulative_drop_mV (fst (sr ! (i - 1))))
             (if i = 0 then input_len_in inp lid else distance (hubs ! i))
             (calculate_current hubs i) = Inr (fst (sr ! i))"
    and row: "snd (sr ! i) =
             result_row_of lid (if i = 0 then APWRLINK else hub_name (hubs ! (i - 1)))
               (hub_name (hubs ! i)) (fst (sr ! i))"
    by blast+
  note d = segment_Inr_D [OF seg]
  show "seg_L (fst (sr ! i)) = (if i = 0 then input_len_in inp lid else distance (hubs ! i))"
    by (rule d(3))
  show "I_A (fst (sr ! i)) = calculate_current hubs i" by (rule d(4))
  show "seg_R (fst (sr ! i)) = COPPER_RESISTIVITY * seg_L (fst (sr ! i)) / cable_area inp"
    unfolding d(3) by (rule d(5))
  show "U_drop_mV (fst (sr ! i)) = I_A (fst (sr ! i)) * seg_R (fst (sr ! i)) * 1000"
    by (rule d(6))
  show "cumulative_drop_mV (fst (sr ! i)) =
           (if i = 0 then 0 else cumulative_drop_mV (fst (sr ! (i - 1)))) + U_drop_mV (fst (sr ! i))"
    by (rule d(7))
  show "remaining_voltage (fst (sr ! i)) = LINK_VOLTAGE - cumulative_drop_mV (fst (sr ! i)) / 1000"
    by (rule d(8))
  show "percent_drop (fst (sr ! i)) =
           cumulative_drop_mV (fst (sr ! i)) / (reference_voltage inp * 1000) * 100"
    by (rule d(9))
  show "snd (sr ! i) =
           result_row_of lid (if i = 0 then APWRLINK else hub_name (hubs ! (i - 1)))
             (hub_name (hubs ! i)) (fst (sr ! i))"
    by (rule row)
qed

subsection \<open>The first segment of a link\<close>

text \<open>
  Claim C2, as amended.  In \<^verbatim>\<open>main2.py\<close>, for every link, segment 0 runs from the
  source to the first hub over the configured length \<open>input_len\<close> of the link: its
  resistance is \<open>calculate_resistance\<close> of that length and the cable area, its drop in
  millivolts is current times resistance times 1000 (the row holds it rounded to two
  decimals), and a non-zero length with a non-zero current gives a non-zero drop.  In
  \<^verbatim>\<open>main.py\<close> the first segment gets resistance 0 and drop 0 whatever distance was
  entered.
\<close>

theorem first_segment_drop:
  "(run inp = Inr out \<longrightarrow>
      (\<forall>k<length (out_link_groups out). \<exists>lid hubs segs rows.
          out_link_groups out ! k = (lid, hubs)
        \<and> out_segments out ! k = (lid, segs)
        \<and> out_link_results out ! k = (lid, rows)
        \<and> segs \<noteq> [] \<and> rows \<noteq> []
        \<and> row_From (rows ! 0) = APWRLINK \<and> row_To (rows ! 0) = hub_name (hubs ! 0)
        \<and> seg_L (segs ! 0) = input_len_in inp lid
        \<and> row_Distance_m (rows ! 0) = input_len_in inp lid
        \<and> calculate_resistance (input_len_in inp lid) (cable_area inp) = Inr (seg_R (segs ! 0))
        \<and> I_A (segs ! 0) = calculate_current hubs 0
        \<and> U_drop_mV (segs ! 0) = I_A (segs ! 0) * seg_R (segs ! 0) * 1000
        \<and> cumulative_drop_mV (segs ! 0) = U_drop_mV (segs ! 0)
        \<and> row_dVoltage_mV (rows ! 0) = py_round (U_drop_mV (segs ! 0)) 2
        \<and> (input_len_in inp lid \<noteq> 0 \<and> I_A (segs ! 0) \<noteq> 0 \<longrightarrow> U_drop_mV (segs ! 0) \<noteq> 0)))
 \<and> (main_berechnung q hs ds = Inr zs \<and> hs \<noteq> [] \<longrightarrow>
      leitungswiderstand (zs ! 0) = 0 \<and> spannungsabfall (zs ! 0) = 0)"
proof (intro conjI impI allI)
  fix k
  assume run: "run inp = Inr out" and k: "k < length (out_link_groups out)"
  obtain lid hubs where g: "out_link_groups out ! k = (lid, hubs)"
    by (cases "out_link_groups out ! k")
  from run_link(1) [OF run k g] obtain sr where
    sr: "link_calc inp lid hubs = Inr sr"
    and segs: "out_segments out ! k = (lid, map fst sr)"
    and rows: "out_link_results out ! k = (lid, map snd sr)"
    by blast
  have ne: "hubs \<noteq> []" and len: "length sr = length hubs" and a: "cable_area inp \<noteq> 0"
    using link_calc_Inr_D(1,4,2) [OF sr] by simp_all
  from ne have i0: "0 < length hubs" by simp
  with len have sne: "sr \<noteq> []" by auto
  note f = link_calc_fields [OF sr i0]
  have l0: "seg_L (fst (sr ! 0)) = input_len_in inp lid" using f(1) by simp
  have r0: "seg_R (fst (sr ! 0)) = COPPER_RESISTIVITY * input_len_in inp lid / cable_area inp"
    using f(3) unfolding l0 .
  have cr: "calculate_resistance (input_len_in inp lid) (cable_area inp) = Inr (seg_R (fst (sr ! 0)))"
    unfolding r0 using a by (simp only: calculate_resistance_def if_False)
  have c0: "cumulative_drop_mV (fst (sr ! 0)) = U_drop_mV (fst (sr ! 0))" using f(5) by simp
  have row0: "snd (sr ! 0) = result_row_of lid APWRLINK (hub_name (hubs ! 0)) (fst (sr ! 0))"
    using f(8) by simp
  have nz: "input_len_in inp lid \<noteq> 0 \<and> I_A (fst (sr ! 0)) \<noteq> 0 \<longrightarrow> U_drop_mV (fst (sr ! 0)) \<noteq> 0"
    unfolding f(4) r0 using a by (simp add: COPPER_RESISTIVITY_def)
  have m0: "map fst sr ! 0 = fst (sr ! 0)" "map snd sr ! 0 = snd (sr ! 0)"
    using sne by (simp_all add: nth_map)
  show "\<exists>lid hubs segs rows.
          out_link_groups out ! k = (lid, hubs)
        \<and> out_segments out ! k = (lid, segs)
        \<and> out_link_results out ! k = (lid, rows)
        \<and> segs \<noteq> [] \<and> rows \<noteq> []
        \<and> row_From (rows ! 0) = APWRLINK \<and> row_To (rows ! 0) = hub_name (hubs ! 0)
        \<and> seg_L (segs ! 0) = input_len_in inp lid
        \<and> row_Distance_m (rows ! 0) = input_len_in inp lid
        \<and> calculate_resistance (input_len_in inp lid) (cable_area inp) = Inr (seg_R (segs ! 0))
        \<and> I_A (segs ! 0) = calculate_current hubs 0
        \<and> U_drop_mV (segs ! 0) = I_A (segs ! 0) * seg_R (segs ! 0) * 1000
        \<and> cumulative_drop_mV (segs ! 0) = U_drop_mV (segs ! 0)
        \<and> row_dVoltage_mV (rows ! 0) = py_round (U_drop_mV (segs ! 0)) 2
        \<and> (input_len_in inp lid \<noteq> 0 \<and> I_A (segs ! 0) \<noteq> 0 \<longrightarrow> U_drop_mV (segs ! 0) \<noteq> 0)"
    apply (intro exI [of _ lid] exI [of _ hubs] exI [of _ "map fst sr"] exI [of _ "map snd sr"])
    unfolding m0
    using g segs rows sne l0 cr f(2) f(4) c0 nz
    by (simp add: row0 result_row_of_def)
next
  assume a: "main_berechnung q hs ds = Inr zs \<and> hs \<noteq> []"
  then have "0 < length hs" by simp
  from main_berechnung_rows(3) [OF _ this, of q ds zs] a
  show "leitungswiderstand (zs ! 0) = 0" "spannungsabfall (zs ! 0) = 0" by simp_all
qed

theorem first_segment_drop_witness:
  "run ex_one_hub = Inr (projr (run ex_one_hub))
   \<and> main_berechnung 4 [5000] [10] = Inr (projr (main_berechnung 4 [5000] [10]))
   \<and> [5000 :: int] \<noteq> []
   \<and> (\<exists>lid hubs segs rows.
          out_link_groups (projr (run ex_one_hub)) ! 0 = (lid, hubs)
        \<and> out_segments (projr (run ex_one_hub)) ! 0 = (lid, segs)
        \<and> out_link_results (projr (run ex_one_hub)) ! 0 = (lid, rows)
        \<and> calculate_resistance (input_len_in ex_one_hub lid) (cable_area ex_one_hub)
            = Inr (seg_R (segs ! 0))
        \<and> U_drop_mV (segs ! 0) = I_A (segs ! 0) * seg_R (segs ! 0) * 1000)
   \<and> spannungsabfall (projr (main_berechnung 4 [5000] [10]) ! 0) = 0"
proof -
  let ?out = "projr (run ex_one_hub)"
  let ?zs = "projr (main_berechnung 4 [5000] [10])"
  have h1: "run ex_one_hub = Inr ?out"
    unfolding ex_one_hub_def by code_simp
  have h2: "main_berechnung 4 [5000] [10] = Inr ?zs"
    by code_simp
  have k: "0 < length (out_link_groups ?out)"
    unfolding ex_one_hub_def by code_simp
  have ne: "[5000 :: int] \<noteq> []" by simp
  from first_segment_drop [of ex_one_hub ?out 4 "[5000]" "[10]" ?zs] h1 h2 k ne
  show ?thesis by blast
qed

text \<open>
  The claim as stated fails on \<^verbatim>\<open>main.py\<close>: a first hub 10 m from the source that
  draws 5 A gets resistance 0 and drop 0.
\<close>

theorem main_first_segment_counterexample:
  "[10 :: rat] ! 0 \<noteq> 0
   \<and> strom_A (projr (main_berechnung 4 [5000] [10]) ! 0) = 5
   \<and> leitungswiderstand (projr (main_berechnung 4 [5000] [10]) ! 0) = 0
   \<and> spannungsabfall (projr (main_berechnung 4 [5000] [10]) ! 0) = 0"
  by code_simp

subsection \<open>Percent drop\<close>

text \<open>
  Claim C8, as amended.  In \<^verbatim>\<open>main2.py\<close> the percent drop computed for every segment
  is the cumulative drop divided by the reference voltage, times 100, the reference
  voltage (volts) being converted to millivolts because the drop accumulates in
  millivolts; the cumulative drop is the previous segment's cumulative drop plus the
  segment's own drop.  The percent-drop field of the result row is that value rounded to
  two decimals.  In \<^verbatim>\<open>main.py\<close> the percent value is the cumulative drop in volts
  divided by the constant 2.0 V, times 100, unrounded.
\<close>

theorem percent_drop_formula:
  "(run inp = Inr out \<longrightarrow>
      (\<forall>k<length (out_link_groups out). \<exists>lid segs rows.
          out_segments out ! k = (lid, segs)
        \<and> out_link_results out ! k = (lid, rows)
        \<and> segs \<noteq> [] \<and> length rows = length segs
        \<and> reference_voltage inp \<noteq> 0
        \<and> (\<forall>i<length segs.
              percent_drop (segs ! i)
                = cumulative_drop_mV (segs ! i) / (reference_voltage inp * 1000) * 100
            \<and> percent_drop (segs ! i)
                = (cumulative_drop_mV (segs ! i) / 1000) / reference_voltage inp * 100
            \<and> cumulative_drop_mV (segs ! i)
                = (if i = 0 then 0 else cumulative_drop_mV (segs ! (i - 1))) + U_drop_mV (segs ! i)
            \<and> row_dVoltage_percent (rows ! i) = py_round (percent_drop (segs ! i)) 2
            \<and> row_Cumulative_dVoltage_mV (rows ! i) = py_round (cumulative_drop_mV (segs ! i)) 2)))
 \<and> (main_berechnung q hs ds = Inr zs \<longrightarrow>
      (\<forall>i<length hs.
          spannungsabfall_prozent (zs ! i) = spannung_kumuliert (zs ! i) / 2 * 100
        \<and> spannungsabfall_mV (zs ! i) = spannung_kumuliert (zs ! i) * 1000))"
proof (intro conjI impI allI)
  fix k
  assume run: "run inp = Inr out" and k: "k < length (out_link_groups out)"
  obtain lid hubs where g: "out_link_groups out ! k = (lid, hubs)"
    by (cases "out_link_groups out ! k")
  from run_link(1) [OF run k g] obtain sr where
    sr: "link_calc inp lid hubs = Inr sr"
    and segs: "out_segments out ! k = (lid, map fst sr)"
    and rows: "out_link_results out ! k = (lid, map snd sr)"
    by blast
  have ne: "hubs \<noteq> []" and len: "length sr = length hubs"
    and r: "reference_voltage inp \<noteq> 0"
    using link_calc_Inr_D(1,4,3) [OF sr] by simp_all
  from ne len have sne: "sr \<noteq> []" by auto
  have fields: "\<forall>i<length (map fst sr).
              percent_drop (map fst sr ! i)
                = cumulative_drop_mV (map fst sr ! i) / (reference_voltage inp * 1000) * 100
            \<and> percent_drop (map fst sr ! i)
                = (cumulative_drop_mV (map fst sr ! i) / 1000) / reference_voltage inp * 100
            \<and> cumulative_drop_mV (map fst sr ! i)
                = (if i = 0 then 0 else cumulative_drop_mV (map fst sr ! (i - 1)))
                  + U_drop_mV (map fst sr ! i)
            \<and> row_dVoltage_percent (map snd sr ! i) = py_round (percent_drop (map fst sr ! i)) 2
            \<and> row_Cumulative_dVoltage_mV (map snd sr ! i)
                = py_round (cumulative_drop_mV (map fst sr ! i)) 2"
  proof (intro allI impI)
    fix i assume "i < length (map fst sr)"
    then have i: "i < length hubs" and i': "i < length sr" and i'': "i - 1 < length sr"
      using len by simp_all
    note f = link_calc_fields [OF sr i]
    have m: "map fst sr ! i = fst (sr ! i)" "map snd sr ! i = snd (sr ! i)"
      "map fst sr ! (i - 1) = fst (sr ! (i - 1))"
      using i' i'' by (simp_all add: nth_map)
    have p2: "percent_drop (fst (sr ! i))
                = (cumulative_drop_mV (fst (sr ! i)) / 1000) / reference_voltage inp * 100"
      unfolding f(7) by (simp add: mult.commute)
    show "percent_drop (map fst sr ! i)
                = cumulative_drop_mV (map fst sr ! i) / (reference_voltage inp * 1000) * 100
            \<and> percent_drop (map fst sr ! i)
                = (cumulative_drop_mV (map fst sr ! i) / 1000) / reference_voltage inp * 100
            \<and> cumulative_drop_mV (map fst sr ! i)
                = (if i = 0 then 0 else cumulative_drop_mV (map fst sr ! (i - 1)))
                  + U_drop_mV (map fst sr ! i)
            \<and> row_dVoltage_percent (map snd sr ! i) = py_round (percent_drop (map fst sr ! i)) 2
            \<and> row_Cumulative_dVoltage_mV (map snd sr ! i)
                = py_round (cumulative_drop_mV (map fst sr ! i)) 2"
      unfolding m
    proof (intro conjI)
      show "percent_drop (fst (sr ! i))
              = cumulative_drop_mV (fst (sr ! i)) / (reference_voltage inp * 1000) * 100"
        by (rule f(7))
      show "percent_drop (fst (sr ! i))
              = (cumulative_drop_mV (fst (sr ! i)) / 1000) / reference_voltage inp * 100"
        by (rule p2)
      show "cumulative_drop_mV (fst (sr ! i))
              = (if i = 0 then 0 else cumulative_drop_mV (fst (sr ! (i - 1))))
                + U_drop_mV (fst (sr ! i))"
        by (rule f(5))
      show "row_dVoltage_percent (snd (sr ! i)) = py_round (percent_drop (fst (sr ! i))) 2"
        unfolding f(8) result_row_of_def by simp
      show "row_Cumulative_dVoltage_mV (snd (sr ! i))
              = py_round (cumulative_drop_mV (fst (sr ! i))) 2"
        unfolding f(8) result_row_of_def by simp
    qed
  qed
  show "\<exists>lid segs rows.
          out_segments out ! k = (lid, segs)
        \<and> out_link_results out ! k = (lid, rows)
        \<and> segs \<noteq> [] \<and> length rows = length segs
        \<and> reference_voltage inp \<noteq> 0
        \<and> (\<forall>i<length segs.
              percent_drop (segs ! i)
                = cumulative_drop_mV (segs ! i) / (reference_voltage inp * 1000) * 100
            \<and> percent_drop (segs ! i)
                = (cumulative_drop_mV (segs ! i) / 1000) / reference_voltage inp * 100
            \<and> cumulative_drop_mV (segs ! i)
                = (if i = 0 then 0 else cumulative_drop_mV (segs ! (i - 1))) + U_drop_mV (segs ! i)
            \<and> row_dVoltage_percent (rows ! i) = py_round (percent_drop (segs ! i)) 2
            \<and> row_Cumulative_dVoltage_mV (rows ! i) = py_round (cumulative_drop_mV (segs ! i)) 2)"
  proof (intro exI [of _ lid] exI [of _ "map fst sr"] exI [of _ "map snd sr"] conjI)
    show "out_segments out ! k = (lid, map fst sr)" by (rule segs)
    show "out_link_results out ! k = (lid, map snd sr)" by (rule rows)
    show "map fst sr \<noteq> []" using sne by simp
    show "length (map snd sr) = length (map fst sr)" by simp
    show "reference_voltage inp \<noteq> 0" by (rule r)
    show "\<forall>i<length (map fst sr).
              percent_drop (map fst sr ! i)
                = cumulative_drop_mV (map fst sr ! i) / (reference_voltage inp * 1000) * 100
            \<and> percent_drop (map fst sr ! i)
                = (cumulative_drop_mV (map fst sr ! i) / 1000) / reference_voltage inp * 100
            \<and> cumulative_drop_mV (map fst sr ! i)
                = (if i = 0 then 0 else cumulative_drop_mV (map fst sr ! (i - 1)))
                  + U_drop_mV (map fst sr ! i)
            \<and> row_dVoltage_percent (map snd sr ! i) = py_round (percent_drop (map fst sr ! i)) 2
            \<and> row_Cumulative_dVoltage_mV (map snd sr ! i)
                = py_round (cumulative_drop_mV (map fst sr ! i)) 2"
      by (rule fields)
  qed
next
  fix i
  assume zs: "main_berechnung q hs ds = Inr zs" and i: "i < length hs"
  from main_berechnung_rows(1,2) [OF zs i]
  show "spannungsabfall_prozent (zs ! i) = spannung_kumuliert (zs ! i) / 2 * 100"
    and "spannungsabfall_mV (zs ! i) = spannung_kumuliert (zs ! i) * 1000"
    by (simp_all add: max_erlaubter_spannungsabfall_def)
qed

theorem percent_drop_formula_witness:
  "run ex_two_links = Inr (projr (run ex_two_links))
   \<and> main_berechnung 4 [5000, 5000] [10, 10] = Inr (projr (main_berechnung 4 [5000, 5000] [10, 10]))
   \<and> (\<exists>lid segs rows.
          out_segments (projr (run ex_two_links)) ! 0 = (lid, segs)
        \<and> out_link_results (projr (run ex_two_links)) ! 0 = (lid, rows)
        \<and> segs \<noteq> [] \<and> length rows = length segs
        \<and> percent_drop (segs ! 0)
            = cumulative_drop_mV (segs ! 0) / (reference_voltage ex_two_links * 1000) * 100
        \<and> row_dVoltage_percent (rows ! 0) = py_round (percent_drop (segs ! 0)) 2)
   \<and> spannungsabfall_prozent (projr (main_berechnung 4 [5000, 5000] [10, 10]) ! 1)
       = spannung_kumuliert (projr (main_berechnung 4 [5000, 5000] [10, 10]) ! 1) / 2 * 100"
proof -
  let ?out = "projr (run ex_two_links)"
  let ?zs = "projr (main_berechnung 4 [5000, 5000] [10, 10])"
  have h1: "run ex_two_links = Inr ?out"
    unfolding ex_two_links_def by code_simp
  have h2: "main_berechnung 4 [5000, 5000] [10, 10] = Inr ?zs"
    by code_simp
  have k: "0 < length (out_link_groups ?out)"
    unfolding ex_two_links_def by code_simp
  have i: "1 < length [5000, 5000 :: int]" by simp
  note inst = percent_drop_formula [of ex_two_links ?out 4 "[5000, 5000]" "[10, 10]" ?zs]
  from inst h1 k obtain lid segs rows where
    s: "out_segments ?out ! 0 = (lid, segs)"
    and r: "out_link_results ?out ! 0 = (lid, rows)"
    and ne: "segs \<noteq> []" and len: "length rows = length segs"
    and f: "\<forall>i<length segs.
              percent_drop (segs ! i)
                = cumulative_drop_mV (segs ! i) / (reference_voltage ex_two_links * 1000) * 100
            \<and> percent_drop (segs ! i)
                = (cumulative_drop_mV (segs ! i) / 1000) / reference_voltage ex_two_links * 100
            \<and> cumulative_drop_mV (segs ! i)
                = (if i = 0 then 0 else cumulative_drop_mV (segs ! (i - 1))) + U_drop_mV (segs ! i)
            \<and> row_dVoltage_percent (rows ! i) = py_round (percent_drop (segs ! i)) 2
            \<and> row_Cumulative_dVoltage_mV (rows ! i) = py_round (cumulative_drop_mV (segs ! i)) 2"
    by blast
  from ne have "0 < length segs" by simp
  with f have f0: "percent_drop (segs ! 0)
            = cumulative_drop_mV (segs ! 0) / (reference_voltage ex_two_links * 1000) * 100"
    "row_dVoltage_percent (rows ! 0) = py_round (percent_drop (segs ! 0)) 2"
    by blast+
  from inst h2 i have "spannungsabfall_prozent (?zs ! 1) = spannung_kumuliert (?zs ! 1) / 2 * 100"
    by blast
  with h1 h2 s r ne len f0 show ?thesis by blast
qed

text \<open>
  The claim as stated fails on the result rows of \<^verbatim>\<open>main2.py\<close>: for one hub drawing
  5 A over 10 m of 4 square millimetres the cumulative drop is 218.75 mV (the row holds
  the same 218.75), the quotient by 48 V is 0.4557291666..., and the row's percent field
  is 0.46.
\<close>

theorem percent_field_rounded_counterexample:
  "cumulative_drop_mV (hd (snd (hd (out_segments (projr (run ex_one_hub)))))) = 875 / 4
   \<and> row_Cumulative_dVoltage_mV (hd (out_results (projr (run ex_one_hub)))) = 875 / 4
   \<and> (875 / 4) / (reference_voltage ex_one_hub * 1000) * 100 = (175 / 384 :: rat)
   \<and> row_dVoltage_percent (hd (out_results (projr (run ex_one_hub)))) = 23 / 50
   \<and> row_dVoltage_percent (hd (out_results (projr (run ex_one_hub))))
       \<noteq> row_Cumulative_dVoltage_mV (hd (out_results (projr (run ex_one_hub))))
           / (reference_voltage ex_one_hub * 1000) * 100"
  unfolding ex_one_hub_def by code_simp

subsection \<open>A single hub at the defaults\<close>


text \<open>The result row of this segment holds the values rounded: 0.0438, 218.75, 47.78.\<close>

lemma single_hub_result_row:
  "out_results (projr (run ex_one_hub)) =
     [\<lparr>row_APWRLINK = 1, row_From = APWRLINK, row_To = APWRHUB 1, row_Distance_m = 10,
       row_Resistance_Ohm = 438 / 10000, row_Current_A = 5, row_dVoltage_mV = 21875 / 100,
       row_Cumulative_dVoltage_mV = 21875 / 100, row_Remaining_Voltage_V = 4778 / 100,
       row_dVoltage_percent = 46 / 100\<rparr>]"
  unfolding ex_one_hub_def by code_simp

subsection \<open>The status is computed from the rounded rows\<close>

lemma link_analysis_color:
  assumes "link_analysis inp link_data = Inr st"
  shows "py_min (map row_Remaining_Voltage_V link_data) = Inr (link_min_voltage st)"
    and "link_current st = link_current_of link_data"
    and "status_color st = red \<longleftrightarrow>
           link_min_voltage st < min_voltage inp \<or> link_current st > max_link_current inp"
proof -
  from assms obtain lmin lmaxp lmaxmv where
    lmin: "py_min (map row_Remaining_Voltage_V link_data) = Inr lmin"
    and st: "st = \<lparr>link_current = link_current_of link_data, link_min_voltage = lmin,
                    link_max_drop_percent = lmaxp, link_max_drop_mV = lmaxmv,
                    status_color =
                      (if link_current_of link_data > max_link_current inp then red
                       else if lmin < min_voltage inp then red else green),
                    status_message =
                      (if link_current_of link_data > max_link_current inp
                       then Current_exceeds_maximum
                       else if lmin < min_voltage inp then Voltage_below_minimum
                       else System_OK),
                    problem_nodes =
                      (if lmin < min_voltage inp
                       then map row_To (filter (\<lambda>row. row_Remaining_Voltage_V row
                                                        < min_voltage inp) link_data)
                       else [])\<rparr>"
    unfolding link_analysis_def Let_def bind_err_Inr_iff
    by (auto split: if_splits)
  show "py_min (map row_Remaining_Voltage_V link_data) = Inr (link_min_voltage st)"
    by (simp add: st lmin)
  show "link_current st = link_current_of link_data" by (simp add: st)
  show "status_color st = red \<longleftrightarrow>
           link_min_voltage st < min_voltage inp \<or> link_current st > max_link_current inp"
    by (simp add: st)
qed


subsection \<open>Status of a link and of the system\<close>

lemma py_min_Inr:
  assumes "py_min xs = Inr m"
  shows "xs \<noteq> []" and "m = Min (set xs)" and "m < t \<longleftrightarrow> (\<exists>x\<in>set xs. x < t)"
proof -
  from assms obtain y ys where xs: "xs = y # ys" by (cases xs) auto
  show "xs \<noteq> []" by (simp add: xs)
  from assms xs have "m = fold min ys y" by simp
  then show m: "m = Min (set xs)" using Min.set_eq_fold [of y ys] by (simp only: xs)
  show "m < t \<longleftrightarrow> (\<exists>x\<in>set xs. x < t)"
    unfolding m using \<open>xs \<noteq> []\<close> by (simp add: Min_less_iff)
qed




lemma link_analysis_red:
  assumes "link_analysis inp link_data = Inr st"
  shows "link_data \<noteq> []"
    and "link_min_voltage st = Min (set (map row_Remaining_Voltage_V link_data))"
    and "status_color st = red \<longleftrightarrow>
           (\<exists>row\<in>set link_data. row_Remaining_Voltage_V row < min_voltage inp)
           \<or> link_current_of link_data > max_link_current inp"
proof -
  note c = link_analysis_color [OF assms]
  note m = py_min_Inr [OF c(1)]
  from m(1) show "link_data \<noteq> []" by simp
  show "link_min_voltage st = Min (set (map row_Remaining_Voltage_V link_data))" by (rule m(2))
  have "link_min_voltage st < min_voltage inp
          \<longleftrightarrow> (\<exists>row\<in>set link_data. row_Remaining_Voltage_V row < min_voltage inp)"
    using m(3) [of "min_voltage inp"] by auto
  with c(3) c(2) show "status_color st = red \<longleftrightarrow>
           (\<exists>row\<in>set link_data. row_Remaining_Voltage_V row < min_voltage inp)
           \<or> link_current_of link_data > max_link_current inp"
    by simp
qed

lemma status_color_cases: "c = green \<longleftrightarrow> c \<noteq> red"
  by (cases c) simp_all

lemma link_rows_head:
  assumes "link_calc inp lid hubs = Inr sr"
  shows "map snd sr \<noteq> []" and "row_From (hd (map snd sr)) = APWRLINK"
    and "link_current_of (map snd sr) = row_Current_A (hd (map snd sr))"
proof -
  have ne: "hubs \<noteq> []" and len: "length sr = length hubs"
    using link_calc_Inr_D(1,4) [OF assms] by simp_all
  then obtain x xs where sr: "sr = x # xs" by (cases sr) auto
  from ne have "0 < length hubs" by simp
  from link_calc_fields(8) [OF assms this]
  have "snd x = result_row_of lid APWRLINK (hub_name (hubs ! 0)) (fst x)" by (simp add: sr)
  then have f: "row_From (snd x) = APWRLINK" by (simp add: result_row_of_def)
  show "map snd sr \<noteq> []" by (simp add: sr)
  show "row_From (hd (map snd sr)) = APWRLINK" by (simp add: sr f)
  show "link_current_of (map snd sr) = row_Current_A (hd (map snd sr))"
    by (simp add: link_current_of_def sr f)
qed

lemma run_lengths:
  assumes run: "run inp = Inr out"
  shows "length (out_segments out) = length (out_link_groups out)"
    and "length (out_link_results out) = length (out_link_groups out)"
proof -
  from run_Inr_D(2) [OF run] obtain calc where
    calc: "calc_loop inp (out_link_groups out) = Inr calc"
    and segs: "out_segments out = map (\<lambda>(lid, segs). (lid, map fst segs)) calc"
    and rows: "out_link_results out = map (\<lambda>(lid, segs). (lid, map snd segs)) calc"
    by blast
  from map_err_Inr [OF calc [unfolded calc_loop_def]]
  have len: "length calc = length (out_link_groups out)" by simp
  show "length (out_segments out) = length (out_link_groups out)" by (simp add: segs len)
  show "length (out_link_results out) = length (out_link_groups out)" by (simp add: rows len)
qed

lemma run_status_length:
  assumes run: "run inp = Inr out"
  shows "length (out_link_status out) = length (out_link_results out)"
proof -
  from run_Inr_D(2) [OF run] have
    st: "map_err (\<lambda>(lid, link_data).
                      bind_err (link_analysis inp link_data) (\<lambda>s. Inr (lid, s)))
              (out_link_results out) = Inr (out_link_status out)"
    by blast
  from map_err_Inr [OF st] show ?thesis by simp
qed

lemma run_link_status:
  assumes run: "run inp = Inr out"
    and k: "k < length (out_link_results out)"
  shows "length (out_link_status out) = length (out_link_results out)"
    and "\<exists>lid rows st. out_link_results out ! k = (lid, rows)
           \<and> out_link_status out ! k = (lid, st)
           \<and> link_analysis inp rows = Inr st
           \<and> rows \<noteq> [] \<and> row_From (hd rows) = APWRLINK
           \<and> link_current_of rows = row_Current_A (hd rows)"
proof -
  from run_Inr_D(2) [OF run] have
    st: "map_err (\<lambda>(lid, link_data).
                      bind_err (link_analysis inp link_data) (\<lambda>s. Inr (lid, s)))
              (out_link_results out) = Inr (out_link_status out)"
    by blast
  from map_err_Inr [OF st]
  have len: "length (out_link_status out) = length (out_link_results out)"
    and nth: "\<forall>k<length (out_link_results out).
               (case out_link_results out ! k of (lid, link_data) \<Rightarrow>
                  bind_err (link_analysis inp link_data) (\<lambda>s. Inr (lid, s)))
               = Inr (out_link_status out ! k)"
    by simp_all
  show "length (out_link_status out) = length (out_link_results out)" by (rule len)
  have kg: "k < length (out_link_groups out)"
    using k run_lengths(2) [OF run] by simp
  obtain lid hubs where g: "out_link_groups out ! k = (lid, hubs)"
    by (cases "out_link_groups out ! k")
  from run_link(1) [OF run kg g] obtain sr where
    sr: "link_calc inp lid hubs = Inr sr"
    and rows: "out_link_results out ! k = (lid, map snd sr)"
    by blast
  from nth k rows have "bind_err (link_analysis inp (map snd sr)) (\<lambda>s. Inr (lid, s))
               = Inr (out_link_status out ! k)" by auto
  then obtain st where a: "link_analysis inp (map snd sr) = Inr st"
    and s: "out_link_status out ! k = (lid, st)"
    by (auto simp: bind_err_Inr_iff)
  note h = link_rows_head [OF sr]
  show "\<exists>lid rows st. out_link_results out ! k = (lid, rows)
           \<and> out_link_status out ! k = (lid, st)
           \<and> link_analysis inp rows = Inr st
           \<and> rows \<noteq> [] \<and> row_From (hd rows) = APWRLINK
           \<and> link_current_of rows = row_Current_A (hd rows)"
    using rows s a h by blast
qed

subsection \<open>A run on valid inputs returns its results\<close>













lemma foldl_color:
  "fst (foldl (\<lambda>s (lid, link_data). if P link_data then (red, m) else s) s0 xs) = red
     \<longleftrightarrow> fst s0 = red \<or> (\<exists>x\<in>set xs. P (snd x))"
proof (induction xs arbitrary: s0)
  case Nil
  then show ?case by simp
next
  case (Cons x xs)
  obtain lid ld where x: "x = (lid, ld)" by (cases x)
  show ?case unfolding x by (simp add: Cons.IH)
qed

lemma overall_analysis_red:
  assumes "overall_analysis inp hub_data results link_results = Inr ov"
  shows "overall_status_color ov = red \<longleftrightarrow>
           (\<exists>row\<in>set results. row_Remaining_Voltage_V row < min_voltage inp)
           \<or> (\<exists>x\<in>set link_results. link_current_of (snd x) > max_link_current inp)"
proof -
  from assms obtain omin where
    omin: "py_min (map row_Remaining_Voltage_V results) = Inr omin"
    and c: "overall_status_color ov =
              fst (foldl (\<lambda>s (lid, link_data).
                             if link_current_of link_data > max_link_current inp
                             then (red, Current_limit_exceeded) else s)
                     (if omin < min_voltage inp then (red, Voltage_issues_detected)
                      else (green, All_Systems_OK)) link_results)"
    unfolding overall_analysis_def Let_def bind_err_Inr_iff by auto
  have m: "omin < min_voltage inp
          \<longleftrightarrow> (\<exists>row\<in>set results. row_Remaining_Voltage_V row < min_voltage inp)"
    using py_min_Inr(3) [OF omin, of "min_voltage inp"] by auto
  have "overall_status_color ov = red \<longleftrightarrow>
          omin < min_voltage inp
          \<or> (\<exists>x\<in>set link_results. link_current_of (snd x) > max_link_current inp)"
    unfolding c foldl_color by simp
  then show ?thesis unfolding m .
qed

lemma overall_link_red:
  assumes run: "run inp = Inr out"
  shows "overall_status_color (out_overall out) = red \<longleftrightarrow>
           (\<exists>k<length (out_link_status out). status_color (snd (out_link_status out ! k)) = red)"
proof -
  from run_Inr_D(2) [OF run] have
    res: "out_results out = concat (map snd (out_link_results out))"
    and ov: "overall_analysis inp (out_hub_data out) (out_results out) (out_link_results out)
             = Inr (out_overall out)"
    by blast+
  have len: "length (out_link_status out) = length (out_link_results out)"
    by (rule run_status_length [OF run])
  have link: "\<And>k. k < length (out_link_results out) \<Longrightarrow>
      (status_color (snd (out_link_status out ! k)) = red \<longleftrightarrow>
         (\<exists>row\<in>set (snd (out_link_results out ! k)). row_Remaining_Voltage_V row < min_voltage inp)
         \<or> link_current_of (snd (out_link_results out ! k)) > max_link_current inp)"
  proof -
    fix k assume k: "k < length (out_link_results out)"
    from run_link_status(2) [OF run k] obtain lid rows s where
      rows: "out_link_results out ! k = (lid, rows)"
      and s: "out_link_status out ! k = (lid, s)"
      and a: "link_analysis inp rows = Inr s"
      by blast
    from link_analysis_red(3) [OF a]
    show "status_color (snd (out_link_status out ! k)) = red \<longleftrightarrow>
         (\<exists>row\<in>set (snd (out_link_results out ! k)). row_Remaining_Voltage_V row < min_voltage inp)
         \<or> link_current_of (snd (out_link_results out ! k)) > max_link_current inp"
      by (simp add: rows s)
  qed
  have "overall_status_color (out_overall out) = red \<longleftrightarrow>
           (\<exists>row\<in>set (concat (map snd (out_link_results out))).
               row_Remaining_Voltage_V row < min_voltage inp)
           \<or> (\<exists>x\<in>set (out_link_results out). link_current_of (snd x) > max_link_current inp)"
    using overall_analysis_red [OF ov] unfolding res .
  also have "\<dots> \<longleftrightarrow> (\<exists>x\<in>set (out_link_results out).
           (\<exists>row\<in>set (snd x). row_Remaining_Voltage_V row < min_voltage inp)
           \<or> link_current_of (snd x) > max_link_current inp)"
    by auto
  also have "\<dots> \<longleftrightarrow> (\<exists>k<length (out_link_results out).
           (\<exists>row\<in>set (snd (out_link_results out ! k)). row_Remaining_Voltage_V row < min_voltage inp)
           \<or> link_current_of (snd (out_link_results out ! k)) > max_link_current inp)"
    by (metis in_set_conv_nth)
  also have "\<dots> \<longleftrightarrow> (\<exists>k<length (out_link_results out).
           status_color (snd (out_link_status out ! k)) = red)"
    using link by blast
  finally show ?thesis unfolding len .
qed

text \<open>
  Claim C5.  The status of the whole system is red (violation) exactly when the status
  of at least one link is red, and green (OK) exactly when every link is green.
\<close>

theorem overall_status_iff:
  "run inp = Inr out \<longrightarrow>
     (overall_status_color (out_overall out) = red \<longleftrightarrow>
        (\<exists>k<length (out_link_status out). status_color (snd (out_link_status out ! k)) = red))
   \<and> (overall_status_color (out_overall out) = green \<longleftrightarrow>
        (\<forall>k<length (out_link_status out). status_color (snd (out_link_status out ! k)) = green))"
proof (intro impI conjI)
  assume run: "run inp = Inr out"
  show r: "overall_status_color (out_overall out) = red \<longleftrightarrow>
        (\<exists>k<length (out_link_status out). status_color (snd (out_link_status out ! k)) = red)"
    by (rule overall_link_red [OF run])
  show "overall_status_color (out_overall out) = green \<longleftrightarrow>
        (\<forall>k<length (out_link_status out). status_color (snd (out_link_status out ! k)) = green)"
    unfolding status_color_cases [of "overall_status_color (out_overall out)"] r
    using status_color_cases by blast
qed

theorem overall_status_iff_witness:
  "run ex20 = Inr (projr (run ex20))
   \<and> overall_status_color (out_overall (projr (run ex20))) = red
   \<and> (\<exists>k<length (out_link_status (projr (run ex20))).
         status_color (snd (out_link_status (projr (run ex20)) ! k)) = red)
   \<and> run ex_two_links = Inr (projr (run ex_two_links))
   \<and> overall_status_color (out_overall (projr (run ex_two_links))) = green
   \<and> status_color (snd (out_link_status (projr (run ex_two_links)) ! 0)) = green
   \<and> status_color (snd (out_link_status (projr (run ex_two_links)) ! 1)) = green"
proof -
  have h1: "run ex20 = Inr (projr (run ex20))" unfolding ex20_def by code_simp
  have c1: "overall_status_color (out_overall (projr (run ex20))) = red"
    unfolding ex20_def by code_simp
  have h2: "run ex_two_links = Inr (projr (run ex_two_links))"
    unfolding ex_two_links_def by code_simp
  have c2: "overall_status_color (out_overall (projr (run ex_two_links))) = green"
    unfolding ex_two_links_def by code_simp
  from overall_status_iff [of ex20 "projr (run ex20)"] h1 c1
  have r: "\<exists>k<length (out_link_status (projr (run ex20))).
         status_color (snd (out_link_status (projr (run ex20)) ! k)) = red"
    by blast
  from overall_status_iff [of ex_two_links "projr (run ex_two_links)"] h2 c2
  have g: "\<forall>k. k < length (out_link_status (projr (run ex_two_links))) \<longrightarrow>
         status_color (snd (out_link_status (projr (run ex_two_links)) ! k)) = green"
    by blast
  have l: "length (out_link_status (projr (run ex_two_links))) = 2"
    unfolding ex_two_links_def by code_simp
  from g l have g0: "status_color (snd (out_link_status (projr (run ex_two_links)) ! 0)) = green"
    and g1: "status_color (snd (out_link_status (projr (run ex_two_links)) ! 1)) = green"
    by simp_all
  from h1 c1 r h2 c2 g0 g1 show ?thesis by blast
qed

subsection \<open>Validation of the link starts\<close>

text \<open>
  Claim C7.  If the first hub, APWRHUB 1, is not among the selected link starts, the
  script stops with the validation error before anything else is computed: the run yields
  the error and no output, hence no result rows.
\<close>

theorem first_hub_must_start_link:
  "APWRHUB 1 \<notin> set (selected_link_starts inp) \<Longrightarrow>
     run inp = Inl Stopped \<and> (\<nexists>res. run inp = Inr res)"
  by (simp add: run_def Let_def)

theorem first_hub_must_start_link_witness:
  "APWRHUB 1 \<notin> set (selected_link_starts ex_no_start)
   \<and> run ex_no_start = Inl Stopped \<and> (\<nexists>res. run ex_no_start = Inr res)"
proof -
  have h: "APWRHUB 1 \<notin> set (selected_link_starts ex_no_start)"
    by (simp add: ex_no_start_def)
  from first_hub_must_start_link [OF h] h show ?thesis by simp
qed

end
